theory Spec2Isabelle
  imports Complex_Main "HOL-Library.Word"
begin

section \<open>Data model of \<open>cmd/lockbox/cmd/write.go\<close>\<close>

text \<open>
  The write command turns loosely typed input (sample data, CSV rows, JSON objects, blob
  files, Parquet batches) into one Arrow record that matches the schema of the lockbox.
  The Arrow types the code distinguishes are modelled by a datatype; any other Arrow
  type is \<open>TOther\<close> with its name. \<open>arrow.TimeUnit\<close> is an integer type with four named
  values, so a fifth constructor stands for every other value (the \<open>default\<close> branches
  of the unit switches).
\<close>

datatype time_unit = Second | Millisecond | Microsecond | Nanosecond | OtherUnit nat

datatype data_type =
    TInt64 | TInt32 | TFloat64 | TString | TBinary | TLargeBinary
  | TTimestamp time_unit
  | TOther string

text \<open>
  \<open>arrow.Field\<close>: the three members the code reads, and the field's key-value metadata,
  which the code never reads but which \<open>Schema.Equal\<close> compares (as a map from keys to
  values).
\<close>

record Field =
  Name :: string
  Type :: data_type
  Nullable :: bool
  Metadata :: "string \<rightharpoonup> string"

type_synonym schema = "Field list"

text \<open>
  A \<open>float64\<close> is modelled by its value: a finite double is the rational it denotes,
  and the three special values are separate. No rounding is modelled: the code never
  does floating-point arithmetic on input values, it only stores them or converts them
  to integers.
\<close>

datatype float64 = Finite rat | PosInf | NegInf | NaN

text \<open>Go strings and byte slices are byte sequences; \<open>string(data)\<close> copies the bytes.\<close>

type_synonym bytes = string

datatype val =
    VInt64 "64 word"
  | VInt32 "32 word"
  | VFloat64 float64
  | VString string
  | VBinary bytes
  | VTimestamp "64 word"

text \<open>
  An \<open>arrow.Array\<close> is its data type and its slots, \<open>None\<close> for a null slot. An
  \<open>array.Builder\<close> is the same under construction; \<open>NewArray\<close> finalises it.
\<close>

record column =
  DataType :: data_type
  vals :: "val option list"

record builder =
  btype :: data_type
  bvals :: "val option list"

definition NewBuilder :: "data_type \<Rightarrow> builder" where
  "NewBuilder t = \<lparr>btype = t, bvals = []\<rparr>"

definition Append :: "builder \<Rightarrow> val option \<Rightarrow> builder" where
  "Append b v = b\<lparr>bvals := bvals b @ [v]\<rparr>"

definition NewArray :: "builder \<Rightarrow> column" where
  "NewArray b = \<lparr>DataType = btype b, vals = bvals b\<rparr>"

definition Len :: "column \<Rightarrow> nat" where
  "Len c = length (vals c)"

text \<open>\<open>arrow.Record\<close>: schema, columns and the row count given to \<open>NewRecord\<close>.\<close>

record batch =
  Schema :: schema
  Columns :: "column list"
  NumRows :: int

section \<open>Errors\<close>

text \<open>
  The code reports every failure with \<open>fmt.Errorf\<close>; there are no error classes. Each
  constructor stands for one message (quoted in the comment) and carries the values the
  message is formatted with. Panics of the Go runtime and of the Arrow library are
  errors of the model as well, so that every function is total.
\<close>

datatype json =
    JNull | JBool bool | JNumber float64 | JString string
  | JArray "json list" | JObject "(string \<times> json) list"

datatype error =
    UnsupportedType data_type
      \<comment> \<open>"unsupported type: %v"\<close>
  | OpenFailed
      \<comment> \<open>"failed to open file: %w"\<close>
  | HeaderReadFailed
      \<comment> \<open>"failed to read CSV header: %w"\<close>
  | RowReadError nat
      \<comment> \<open>"error reading row %d: %w"\<close>
  | FieldCountMismatch nat nat nat
      \<comment> \<open>"row %d: expected %d fields, got %d"\<close>
  | InvalidInt64 nat string string
      \<comment> \<open>"row %d, col %s: invalid int64: %s"\<close>
  | InvalidInt32 nat string string
      \<comment> \<open>"row %d, col %s: invalid int32: %s"\<close>
  | InvalidFloat64 nat string string
      \<comment> \<open>"row %d, col %s: invalid float64: %s"\<close>
  | InvalidTimestamp nat string string
      \<comment> \<open>"row %d, col %s: invalid timestamp: %s"\<close>
  | UnknownTimestampUnit time_unit
      \<comment> \<open>"unknown timestamp unit: %v"\<close>
  | UnsupportedTypeAt nat string data_type
      \<comment> \<open>"unsupported type in row %d, col %s: %v"\<close>
  | SeekFailed
      \<comment> \<open>"invalid JSON format, and seek failed: %w"\<close>
  | JSONDecodeError
      \<comment> \<open>"JSON decode error: %w"\<close>
  | MissingNonNullable nat string
      \<comment> \<open>"row %d: missing non-nullable field '%s'"\<close>
  | ExpectedInt64 nat string json
      \<comment> \<open>"row %d, col %s: expected int64, got %T"\<close>
  | ExpectedInt32 nat string json
      \<comment> \<open>"row %d, col %s: expected int32, got %T"\<close>
  | ExpectedFloat64 nat string json
      \<comment> \<open>"row %d, col %s: expected float64, got %T"\<close>
  | InvalidTimestampType nat string json
      \<comment> \<open>"row %d, col %s: invalid timestamp type: %T"\<close>
  | ReadBlobFailed string
      \<comment> \<open>"read blob %s: %w"\<close>
  | ParquetOpenFailed
      \<comment> \<open>"failed to open parquet file: %w"\<close>
  | ParquetReadFailed
      \<comment> \<open>"failed to read parquet file: %w"\<close>
  | ParquetReaderFailed
      \<comment> \<open>"failed to create parquet reader: %w"\<close>
  | ParquetSchemaFailed
      \<comment> \<open>"failed to get parquet schema: %w"\<close>
  | RecordReaderFailed
      \<comment> \<open>"failed to get record reader: %w"\<close>
  | NoDataInParquet
      \<comment> \<open>"no data found in Parquet file"\<close>
  | CoerceFailed
      \<comment> \<open>the error of \<open>lockbox.CoerceRecord\<close>, returned as it is\<close>
  | ConcatNoArrays
      \<comment> \<open>\<open>array.Concatenate\<close>: "array/concat: must pass at least one array"\<close>
  | ConcatTypeMismatch
      \<comment> \<open>\<open>array.Concatenate\<close>: "arrays to be concatenated must be identically typed"\<close>
  | PanicIndexOutOfRange
      \<comment> \<open>runtime panic: index out of range\<close>
  | PanicNewRecord
      \<comment> \<open>\<open>array.NewRecord\<close> panics if the columns and schema are inconsistent\<close>

text \<open>Sequencing with the first error returned, as a loop with an early \<open>return\<close>.\<close>

fun mapE :: "('a \<Rightarrow> error + 'b) \<Rightarrow> 'a list \<Rightarrow> error + 'b list" where
  "mapE f [] = Inr []"
| "mapE f (x # xs) =
     (case f x of
        Inl e \<Rightarrow> Inl e
      | Inr y \<Rightarrow> (case mapE f xs of Inl e \<Rightarrow> Inl e | Inr ys \<Rightarrow> Inr (y # ys)))"

section \<open>The Arrow library calls the code relies on\<close>

text \<open>
  \<open>array.NewRecord(schema, cols, nrows)\<close> of arrow-go: a negative row count is replaced
  by the length of the first column (0 without columns); then the record is validated
  and the call panics when validation fails. Validation passes for no rows and no
  columns; otherwise the number of columns must be the number of fields, no column may
  be shorter than the row count, and every column's type must equal its field's type.
  Nullability is not validated.
\<close>

definition validate :: "schema \<Rightarrow> column list \<Rightarrow> int \<Rightarrow> bool" where
  "validate schema arrs rows =
     ((rows = 0 \<and> arrs = []) \<or>
      list_all2 (\<lambda>arr f. \<not> int (Len arr) < rows \<and> DataType arr = Type f) arrs schema)"

definition NewRecord :: "schema \<Rightarrow> column list \<Rightarrow> int \<Rightarrow> error + batch" where
  "NewRecord schema cols nrows =
     (let rows = (if nrows < 0
                  then (case cols of [] \<Rightarrow> 0 | c # _ \<Rightarrow> int (Len c))
                  else nrows)
      in if validate schema cols rows
         then Inr \<lparr>Schema = schema, Columns = cols, NumRows = rows\<rparr>
         else Inl PanicNewRecord)"

text \<open>
  \<open>array.Concatenate\<close>: fails without arrays and when an array's type differs from the
  first one's; otherwise the slots are appended in order, nulls included. (Its failure
  on offsets beyond the 32-bit range of a string column is a memory limit, not
  modelled.)
\<close>

definition Concatenate :: "column list \<Rightarrow> error + column" where
  "Concatenate arrs =
     (case arrs of
        [] \<Rightarrow> Inl ConcatNoArrays
      | a # _ \<Rightarrow>
          if list_all (\<lambda>ar. DataType ar = DataType a) arrs
          then Inr \<lparr>DataType = DataType a, vals = concat (map vals arrs)\<rparr>
          else Inl ConcatTypeMismatch)"

text \<open>\<open>rec.Column(i)\<close> indexes the record's slice of columns.\<close>

definition Column :: "batch \<Rightarrow> nat \<Rightarrow> error + column" where
  "Column rec i = (if i < length (Columns rec) then Inr (Columns rec ! i) else Inl PanicIndexOutOfRange)"

section \<open>\<open>concatRecords\<close>\<close>

text \<open>
  Without records the function returns a nil record and a nil error, so the result is an
  optional batch. For each field position the columns of all records are gathered in
  input order and concatenated; the row counts are summed.
\<close>

definition concatRecords :: "schema \<Rightarrow> batch list \<Rightarrow> error + batch option" where
  "concatRecords schema records =
     (if records = [] then Inr None
      else
        (case mapE (\<lambda>i. case mapE (\<lambda>rec. Column rec i) records of
                          Inl e \<Rightarrow> Inl e
                        | Inr arraysToConcat \<Rightarrow> Concatenate arraysToConcat)
                   [0 ..< length schema] of
           Inl e \<Rightarrow> Inl e
         | Inr concatArrays \<Rightarrow>
             (case NewRecord schema concatArrays (sum_list (map NumRows records)) of
                Inl e \<Rightarrow> Inl e
              | Inr rec \<Rightarrow> Inr (Some rec))))"

section \<open>\<open>loadDataFromORCToParquet\<close>\<close>

text \<open>
  What the Parquet reader delivers is an input of the model: one of the five failures
  before the first batch, or the batches that \<open>recReader.Next()\<close> yields.
  \<open>lockbox.CoerceRecord\<close> lives in another package and is a parameter; a batch is handed
  to it when \<open>rec.Schema().Equal(schema)\<close> is false. \<open>Schema.Equal\<close> compares the fields in
  order, each by name, type, nullability and metadata (and the byte order of the two
  schemas, which is the machine's for both and is not modelled); that is equality of the
  field lists. The error of \<open>concatRecords\<close> is
  dropped by the caller, which returns the (then nil) result with a nil error; a panic
  is not an error value and is not dropped.
\<close>

definition isPanic :: "error \<Rightarrow> bool" where
  "isPanic e = (e = PanicIndexOutOfRange \<or> e = PanicNewRecord)"

datatype parquet_source =
    OpenFails | ParquetReaderFails | FileReaderFails | SchemaFails | RecordReaderFails
  | Batches "batch list"

definition coerceBatch :: "(schema \<Rightarrow> batch \<Rightarrow> error + batch) \<Rightarrow> schema \<Rightarrow> batch \<Rightarrow> error + batch" where
  "coerceBatch CoerceRecord schema rec =
     (if Schema rec \<noteq> schema then CoerceRecord schema rec else Inr rec)"

definition loadDataFromORCToParquet ::
  "(schema \<Rightarrow> batch \<Rightarrow> error + batch) \<Rightarrow> parquet_source \<Rightarrow> schema \<Rightarrow> error + batch option" where
  "loadDataFromORCToParquet CoerceRecord src schema =
     (case src of
        OpenFails \<Rightarrow> Inl ParquetOpenFailed
      | ParquetReaderFails \<Rightarrow> Inl ParquetReadFailed
      | FileReaderFails \<Rightarrow> Inl ParquetReaderFailed
      | SchemaFails \<Rightarrow> Inl ParquetSchemaFailed
      | RecordReaderFails \<Rightarrow> Inl RecordReaderFailed
      | Batches recs \<Rightarrow>
          (case mapE (coerceBatch CoerceRecord schema) recs of
             Inl e \<Rightarrow> Inl e
           | Inr allBatches \<Rightarrow>
               if allBatches = [] then Inl NoDataInParquet
               else (case concatRecords schema allBatches of
                       Inl e \<Rightarrow> if isPanic e then Inl e else Inr None
                     | Inr result \<Rightarrow> Inr result)))"

section \<open>Go library functions\<close>

text \<open>
  The functions of the Go standard library that the loaders call are modelled here, from
  their documented behaviour. A \<open>time.Time\<close> is the instant it denotes: whole seconds
  since the Unix epoch and the nanoseconds within the second (\<open>0 \<le> nsec < 10\<^sup>9\<close> for
  every value the library produces). \<open>Unix\<close>, \<open>UnixMilli\<close>, \<open>UnixMicro\<close> and \<open>UnixNano\<close> are
  computed in \<open>int64\<close>, as in package \<open>time\<close>:
  \<^verbatim>\<open>t.unixSec()*1e3 + int64(t.nsec())/1e6\<close> and so on; the arithmetic wraps around.
\<close>

record Time =
  unixSec :: int
  nsec :: nat

definition Unix :: "Time \<Rightarrow> 64 word" where
  "Unix t = word_of_int (unixSec t)"

definition UnixMilli :: "Time \<Rightarrow> 64 word" where
  "UnixMilli t = word_of_int (unixSec t * 1000 + int (nsec t div 1000000))"

definition UnixMicro :: "Time \<Rightarrow> 64 word" where
  "UnixMicro t = word_of_int (unixSec t * 1000000 + int (nsec t div 1000))"

definition UnixNano :: "Time \<Rightarrow> 64 word" where
  "UnixNano t = word_of_int (unixSec t * 1000000000 + int (nsec t))"

text \<open>
  Library functions whose results the model does not compute are parameters, collected in
  one record:
  \<^item> \<open>ParseFloat s\<close> is \<open>strconv.ParseFloat(s, 64)\<close>, \<open>None\<close> when it returns an error;
  \<^item> \<open>time_Parse s\<close> is \<open>time.Parse(time.RFC3339, s)\<close>, \<open>None\<close> when it returns an error;
  \<^item> \<open>Sprint v\<close> is \<open>fmt.Sprintf("%v", v)\<close>;
  \<^item> \<open>int64_unrepresentable v\<close> and \<open>int32_unrepresentable v\<close> are the results of the
    conversions \<open>int64(v)\<close> and \<open>int32(v)\<close> of a \<open>float64\<close> whose value the target type
    cannot represent: the Go specification leaves them implementation-dependent;
  \<^item> \<open>ReadFile path\<close> is \<open>os.ReadFile(path)\<close>, \<open>None\<close> when it returns an error.
\<close>

record golib =
  ParseFloat :: "string \<Rightarrow> float64 option"
  time_Parse :: "string \<Rightarrow> Time option"
  Sprint :: "json \<Rightarrow> string"
  int64_unrepresentable :: "float64 \<Rightarrow> 64 word"
  int32_unrepresentable :: "float64 \<Rightarrow> 32 word"
  ReadFile :: "string \<Rightarrow> bytes option"

text \<open>
  Converting a floating-point number to an integer type discards the fraction
  (truncation toward zero); the result is defined when the target type can represent
  it.
\<close>

definition trunc :: "rat \<Rightarrow> int" where
  "trunc q = (if 0 \<le> q then \<lfloor>q\<rfloor> else \<lceil>q\<rceil>)"

definition int64_of_float64 :: "golib \<Rightarrow> float64 \<Rightarrow> 64 word" where
  "int64_of_float64 L v =
     (case v of
        Finite q \<Rightarrow>
          if - (2 ^ 63) \<le> trunc q \<and> trunc q < 2 ^ 63 then word_of_int (trunc q)
          else int64_unrepresentable L v
      | _ \<Rightarrow> int64_unrepresentable L v)"

definition int32_of_float64 :: "golib \<Rightarrow> float64 \<Rightarrow> 32 word" where
  "int32_of_float64 L v =
     (case v of
        Finite q \<Rightarrow>
          if - (2 ^ 31) \<le> trunc q \<and> trunc q < 2 ^ 31 then word_of_int (trunc q)
          else int32_unrepresentable L v
      | _ \<Rightarrow> int32_unrepresentable L v)"

text \<open>
  \<open>strconv.ParseInt(s, 10, bitSize)\<close>: an optional sign, then at least one decimal digit
  and nothing else; a value outside the range of \<open>bitSize\<close> bits is an error as well.
\<close>

definition isDigit :: "char \<Rightarrow> bool" where
  "isDigit c = (48 \<le> (of_char c :: nat) \<and> (of_char c :: nat) \<le> 57)"

definition digitVal :: "char \<Rightarrow> nat" where
  "digitVal c = of_char c - 48"

definition parseDigits :: "string \<Rightarrow> nat" where
  "parseDigits s = foldl (\<lambda>x c. x * 10 + digitVal c) 0 s"

definition ParseInt :: "string \<Rightarrow> nat \<Rightarrow> int option" where
  "ParseInt s bitSize =
     (if s = [] then None
      else
        let neg = (hd s = CHR ''-'');
            ds = (if hd s = CHR ''+'' \<or> hd s = CHR ''-'' then tl s else s)
        in if ds = [] \<or> \<not> list_all isDigit ds then None
           else
             let un = parseDigits ds; cutoff = 2 ^ (bitSize - 1)
             in if \<not> neg \<and> cutoff \<le> un then None
                else if neg \<and> cutoff < un then None
                else Some (if neg then - int un else int un))"

text \<open>
  \<open>parseRFC3339\<close> is the function of that name in package \<open>time\<close>, which \<open>time.Parse\<close> tries
  first for the RFC 3339 layout: \<open>YYYY-MM-DDTHH:MM:SS\<close>, an optional fraction of a second
  (kept up to nanoseconds), and \<open>Z\<close> or an offset \<open>\<plusminus>HH:MM\<close>, every number checked
  against its range. \<open>Date\<close> turns the civil date and time, taken as UTC, into an instant
  (proleptic Gregorian calendar). It is not all of \<open>time.Parse\<close>: a string that this
  function rejects goes on to the general layout parser, which accepts some more
  spellings (a one-digit hour, a comma before the fraction). It serves as \<open>time_Parse\<close>
  in the examples, which use only strings that this function accepts and for which
  \<open>time.Parse\<close> therefore returns its result; the general results hold for every
  \<open>time_Parse\<close>.
\<close>

definition parseUint :: "string \<Rightarrow> nat \<Rightarrow> nat \<Rightarrow> nat option" where
  "parseUint s mn mx =
     (if list_all isDigit s
      then (let x = parseDigits s in if x < mn \<or> mx < x then None else Some x)
      else None)"

definition isLeap :: "nat \<Rightarrow> bool" where
  "isLeap year = (year mod 4 = 0 \<and> (year mod 100 \<noteq> 0 \<or> year mod 400 = 0))"

definition daysIn :: "nat \<Rightarrow> nat \<Rightarrow> nat" where
  "daysIn month year =
     (if month = 2 then (if isLeap year then 29 else 28)
      else if month = 4 \<or> month = 6 \<or> month = 9 \<or> month = 11 then 30 else 31)"

definition daysBefore :: "nat list" where
  "daysBefore = [0, 31, 59, 90, 120, 151, 181, 212, 243, 273, 304, 334]"

definition daysSinceEpoch :: "nat \<Rightarrow> nat \<Rightarrow> nat \<Rightarrow> int" where
  "daysSinceEpoch year month day =
     (let y = int year - 1
      in 365 * (int year - 1970) + (y div 4 - y div 100 + y div 400) - 477
         + int (daysBefore ! (month - 1)) + (if isLeap year \<and> 2 < month then 1 else 0)
         + int day - 1)"

definition Date :: "nat \<Rightarrow> nat \<Rightarrow> nat \<Rightarrow> nat \<Rightarrow> nat \<Rightarrow> nat \<Rightarrow> nat \<Rightarrow> Time" where
  "Date year month day hour mn sec ns =
     \<lparr>unixSec = daysSinceEpoch year month day * 86400 + int (hour * 3600 + mn * 60 + sec),
      nsec = ns\<rparr>"

definition parseNanoseconds :: "string \<Rightarrow> nat" where
  "parseNanoseconds ds = (let d = take 9 ds in parseDigits d * 10 ^ (9 - length d))"

definition parseZone :: "string \<Rightarrow> int option" where
  "parseZone s =
     (if s = ''Z'' then Some 0
      else if length s \<noteq> 6 then None
      else
        (case (parseUint (take 2 (drop 1 s)) 0 23, parseUint (take 2 (drop 4 s)) 0 59) of
           (Some hr, Some mm) \<Rightarrow>
             if \<not> ((s ! 0 = CHR ''-'' \<or> s ! 0 = CHR ''+'') \<and> s ! 3 = CHR '':'') then None
             else
               let zoneOffset = int ((hr * 60 + mm) * 60)
               in Some (if s ! 0 = CHR ''-'' then - zoneOffset else zoneOffset)
         | _ \<Rightarrow> None))"

definition parseRFC3339 :: "string \<Rightarrow> Time option" where
  "parseRFC3339 s =
     (if length s < 19 then None
      else
        (case (parseUint (take 4 s) 0 9999, parseUint (take 2 (drop 5 s)) 1 12,
               parseUint (take 2 (drop 11 s)) 0 23, parseUint (take 2 (drop 14 s)) 0 59,
               parseUint (take 2 (drop 17 s)) 0 59) of
           (Some year, Some month, Some hour, Some mn, Some sec) \<Rightarrow>
             (case parseUint (take 2 (drop 8 s)) 1 (daysIn month year) of
                None \<Rightarrow> None
              | Some day \<Rightarrow>
                  if \<not> (s ! 4 = CHR ''-'' \<and> s ! 7 = CHR ''-'' \<and> s ! 10 = CHR ''T'' \<and>
                         s ! 13 = CHR '':'' \<and> s ! 16 = CHR '':'') then None
                  else
                    let s1 = drop 19 s;
                        frac = (if 2 \<le> length s1 \<and> s1 ! 0 = CHR ''.'' \<and> isDigit (s1 ! 1)
                                then takeWhile isDigit (tl s1) else []);
                        ns = (if frac = [] then 0 else parseNanoseconds frac);
                        s2 = (if frac = [] then s1 else drop (1 + length frac) s1);
                        t = Date year month day hour mn sec ns
                    in (case parseZone s2 of
                          None \<Rightarrow> None
                        | Some zoneOffset \<Rightarrow> Some (t\<lparr>unixSec := unixSec t - zoneOffset\<rparr>)))
         | _ \<Rightarrow> None))"

text \<open>The decimal digits of a number, as \<open>%d\<close> prints them.\<close>

fun Itoa :: "nat \<Rightarrow> string" where
  "Itoa n = (if n < 10 then [char_of (48 + n)] else Itoa (n div 10) @ [char_of (48 + n mod 10)])"

declare Itoa.simps [simp del]



section \<open>\<open>generateSampleData\<close>\<close>

text \<open>
  Five rows. The \<open>switch\<close> on the field's type has cases for Int64, Int32, String and
  Float64; every other type gets a string column of \<open>default_1\<close> to \<open>default_5\<close>
  ("Default to string for unsupported types"). The columns go to \<open>NewRecord\<close> with the
  schema and 5 rows.
\<close>

definition sampleString :: "string \<Rightarrow> nat \<Rightarrow> string" where
  "sampleString name i =
     (if name = ''name'' then ''User'' @ Itoa (i + 1)
      else if name = ''email'' then ''user'' @ Itoa (i + 1) @ ''@example.com''
      else ''sample_'' @ name @ ''_'' @ Itoa (i + 1))"

definition sampleArray :: "Field \<Rightarrow> column" where
  "sampleArray field =
     (case Type field of
        TInt64 \<Rightarrow>
          \<lparr>DataType = TInt64, vals = map (\<lambda>i. Some (VInt64 (of_nat (i + 1)))) [0 ..< 5]\<rparr>
      | TInt32 \<Rightarrow>
          \<lparr>DataType = TInt32, vals = map (\<lambda>i. Some (VInt32 (of_nat (20 + i)))) [0 ..< 5]\<rparr>
      | TString \<Rightarrow>
          \<lparr>DataType = TString,
           vals = map (\<lambda>i. Some (VString (sampleString (Name field) i))) [0 ..< 5]\<rparr>
      | TFloat64 \<Rightarrow>
          \<lparr>DataType = TFloat64,
           vals = map (\<lambda>i. Some (VFloat64 (Finite (of_nat i * (3 / 2))))) [0 ..< 5]\<rparr>
      | _ \<Rightarrow>
          \<lparr>DataType = TString,
           vals = map (\<lambda>i. Some (VString (''default_'' @ Itoa (i + 1)))) [0 ..< 5]\<rparr>)"

definition generateSampleData :: "schema \<Rightarrow> error + batch" where
  "generateSampleData schema = NewRecord schema (map sampleArray schema) 5"

section \<open>Builders and the row loops of the CSV and JSON loaders\<close>

text \<open>
  Both loaders create one builder per field before they open the file, and fail with
  "unsupported type" on a field that is not Int64, Int32, Float64, String or Timestamp.
  \<open>appendValues\<close> is the inner loop over the columns of one input record: the value for
  each column is coerced and appended to that column's builder, and the first failure
  ends the run. \<open>buildRecord\<close> is the common tail "Build Arrow arrays and record":
  \<open>arrays[0].Len()\<close> is the row count, which panics without columns.
\<close>

definition newBuilder :: "Field \<Rightarrow> error + builder" where
  "newBuilder field =
     (case Type field of
        TInt64 \<Rightarrow> Inr (NewBuilder TInt64)
      | TInt32 \<Rightarrow> Inr (NewBuilder TInt32)
      | TFloat64 \<Rightarrow> Inr (NewBuilder TFloat64)
      | TString \<Rightarrow> Inr (NewBuilder TString)
      | TTimestamp u \<Rightarrow> Inr (NewBuilder (TTimestamp u))
      | _ \<Rightarrow> Inl (UnsupportedType (Type field)))"

fun appendValues ::
  "('a \<Rightarrow> error + val option) \<Rightarrow> 'a list \<Rightarrow> builder list \<Rightarrow> error + builder list" where
  "appendValues coerce [] builders = Inr builders"
| "appendValues coerce (x # xs) [] = Inl PanicIndexOutOfRange"
| "appendValues coerce (x # xs) (b # bs) =
     (case coerce x of
        Inl e \<Rightarrow> Inl e
      | Inr v \<Rightarrow>
          (case appendValues coerce xs bs of
             Inl e \<Rightarrow> Inl e
           | Inr bs' \<Rightarrow> Inr (Append b v # bs')))"

definition buildRecord :: "schema \<Rightarrow> builder list \<Rightarrow> error + batch" where
  "buildRecord schema builders =
     (let arrays = map NewArray builders
      in case arrays of
           [] \<Rightarrow> Inl PanicIndexOutOfRange
         | a # _ \<Rightarrow> NewRecord schema arrays (int (Len a)))"

definition timestampEpoch :: "time_unit \<Rightarrow> Time \<Rightarrow> error + 64 word" where
  "timestampEpoch u tm =
     (case u of
        Second \<Rightarrow> Inr (Unix tm)
      | Millisecond \<Rightarrow> Inr (UnixMilli tm)
      | Microsecond \<Rightarrow> Inr (UnixMicro tm)
      | Nanosecond \<Rightarrow> Inr (UnixNano tm)
      | OtherUnit n \<Rightarrow> Inl (UnknownTimestampUnit u))"

section \<open>\<open>loadDataFromFile\<close>: CSV\<close>

text \<open>
  The file is what \<open>os.Open\<close> and the CSV parser make of it: \<open>None\<close> when it cannot be
  opened, else the records of the file in order, a record being its fields or a syntax
  error. \<open>readRecord\<close> is \<open>csv.Reader.Read\<close> on the next record, with the reader's
  \<open>FieldsPerRecord\<close> as state: the code leaves it at its default 0, so the first record
  read sets it to its number of fields, and a later record with another number of fields
  is returned with the error \<open>ErrFieldCount\<close>. The end of the list is \<open>io.EOF\<close>.
  \<open>csvValue\<close> is the body of the loop over the values of a row, \<open>csvRows\<close> the loop over
  the rows, which starts at row number 2.
\<close>

datatype csv_record = Rec "string list" | BadRecord

definition readRecord :: "nat \<Rightarrow> csv_record \<Rightarrow> string list option \<times> nat" where
  "readRecord FieldsPerRecord r =
     (case r of
        BadRecord \<Rightarrow> (None, FieldsPerRecord)
      | Rec dst \<Rightarrow>
          if 0 < FieldsPerRecord
          then (if length dst \<noteq> FieldsPerRecord then (None, FieldsPerRecord)
                else (Some dst, FieldsPerRecord))
          else (Some dst, length dst))"

definition csvValue :: "golib \<Rightarrow> nat \<Rightarrow> Field \<Rightarrow> string \<Rightarrow> error + val option" where
  "csvValue L rowNum field val =
     (case Type field of
        TInt64 \<Rightarrow>
          if val = [] \<and> Nullable field then Inr None
          else (case ParseInt val 64 of
                  None \<Rightarrow> Inl (InvalidInt64 rowNum (Name field) val)
                | Some v \<Rightarrow> Inr (Some (VInt64 (word_of_int v))))
      | TInt32 \<Rightarrow>
          if val = [] \<and> Nullable field then Inr None
          else (case ParseInt val 32 of
                  None \<Rightarrow> Inl (InvalidInt32 rowNum (Name field) val)
                | Some v \<Rightarrow> Inr (Some (VInt32 (word_of_int v))))
      | TFloat64 \<Rightarrow>
          if val = [] \<and> Nullable field then Inr None
          else (case ParseFloat L val of
                  None \<Rightarrow> Inl (InvalidFloat64 rowNum (Name field) val)
                | Some v \<Rightarrow> Inr (Some (VFloat64 v)))
      | TString \<Rightarrow>
          if val = [] \<and> Nullable field then Inr None
          else Inr (Some (VString val))
      | TTimestamp u \<Rightarrow>
          if val = [] \<and> Nullable field then Inr None
          else (case time_Parse L val of
                  None \<Rightarrow> Inl (InvalidTimestamp rowNum (Name field) val)
                | Some tm \<Rightarrow>
                    (case timestampEpoch u tm of
                       Inl e \<Rightarrow> Inl e
                     | Inr epoch \<Rightarrow> Inr (Some (VTimestamp epoch))))
      | _ \<Rightarrow> Inl (UnsupportedTypeAt rowNum (Name field) (Type field)))"

fun csvRows ::
  "golib \<Rightarrow> schema \<Rightarrow> nat \<Rightarrow> nat \<Rightarrow> csv_record list \<Rightarrow> builder list \<Rightarrow> error + builder list" where
  "csvRows L schema rowNum fpr [] builders = Inr builders"
| "csvRows L schema rowNum fpr (r # rest) builders =
     (case readRecord fpr r of
        (None, fpr') \<Rightarrow> Inl (RowReadError rowNum)
      | (Some row, fpr') \<Rightarrow>
          if length row \<noteq> length schema
          then Inl (FieldCountMismatch rowNum (length schema) (length row))
          else
            (case appendValues (\<lambda>(field, val). csvValue L rowNum field val)
                               (zip schema row) builders of
               Inl e \<Rightarrow> Inl e
             | Inr builders' \<Rightarrow> csvRows L schema (rowNum + 1) fpr' rest builders'))"

definition loadDataFromFile :: "golib \<Rightarrow> csv_record list option \<Rightarrow> schema \<Rightarrow> error + batch" where
  "loadDataFromFile L file schema =
     (case mapE newBuilder schema of
        Inl e \<Rightarrow> Inl e
      | Inr builders \<Rightarrow>
          (case file of
             None \<Rightarrow> Inl OpenFailed
           | Some [] \<Rightarrow> Inl HeaderReadFailed
           | Some (h # rest) \<Rightarrow>
               (case readRecord 0 h of
                  (None, fpr) \<Rightarrow> Inl HeaderReadFailed
                | (Some header, fpr) \<Rightarrow>
                    (case csvRows L schema 2 fpr rest builders of
                       Inl e \<Rightarrow> Inl e
                     | Inr builders' \<Rightarrow> buildRecord schema builders'))))"

section \<open>\<open>loadDataFromJSON\<close>\<close>

text \<open>
  A decoded object is a map from keys to JSON values. The JSON file is what the decoder
  makes of it: \<open>asArray\<close> is the result of the first \<open>Decode\<close>, into a slice of objects
  (\<open>None\<close> when it fails); \<open>seekFails\<close> tells whether \<open>f.Seek(0, io.SeekStart)\<close> fails;
  \<open>asObjects\<close> are the outcomes of the successive \<open>Decode\<close> calls into one object after
  the seek, up to \<open>io.EOF\<close>. \<open>readJSON\<close> is the block "Read JSON: try as array, else
  NDJSON fallback". \<open>jsonValue\<close> is the body of the loop over the fields of a record:
  the look-up of the field's name with the nullable check, then (\<open>jsonTyped\<close>) the switch
  on the field's type and the value's dynamic type. Row numbers in messages are
  \<open>rowNum + 1\<close>.
\<close>

type_synonym json_object = "string \<rightharpoonup> json"

datatype decode_result = Decoded json_object | DecodeFails

record json_file =
  asArray :: "json_object list option"
  seekFails :: bool
  asObjects :: "decode_result list"

fun decodeObjects :: "decode_result list \<Rightarrow> error + json_object list" where
  "decodeObjects [] = Inr []"
| "decodeObjects (DecodeFails # rest) = Inl JSONDecodeError"
| "decodeObjects (Decoded row # rest) =
     (case decodeObjects rest of Inl e \<Rightarrow> Inl e | Inr records \<Rightarrow> Inr (row # records))"

definition readJSON :: "json_file \<Rightarrow> error + json_object list" where
  "readJSON f =
     (case asArray f of
        Some records \<Rightarrow> Inr records
      | None \<Rightarrow> if seekFails f then Inl SeekFailed else decodeObjects (asObjects f))"

definition jsonTyped :: "golib \<Rightarrow> nat \<Rightarrow> Field \<Rightarrow> json \<Rightarrow> error + val option" where
  "jsonTyped L rowNum field val =
     (case Type field of
        TInt64 \<Rightarrow>
          (case val of
             JNumber v \<Rightarrow> Inr (Some (VInt64 (int64_of_float64 L v)))
           | JString v \<Rightarrow>
               if v = [] \<and> Nullable field then Inr None
               else (case ParseInt v 64 of
                       None \<Rightarrow> Inl (InvalidInt64 (rowNum + 1) (Name field) v)
                     | Some num \<Rightarrow> Inr (Some (VInt64 (word_of_int num))))
           | _ \<Rightarrow> Inl (ExpectedInt64 (rowNum + 1) (Name field) val))
      | TInt32 \<Rightarrow>
          (case val of
             JNumber v \<Rightarrow> Inr (Some (VInt32 (int32_of_float64 L v)))
           | JString v \<Rightarrow>
               if v = [] \<and> Nullable field then Inr None
               else (case ParseInt v 32 of
                       None \<Rightarrow> Inl (InvalidInt32 (rowNum + 1) (Name field) v)
                     | Some num \<Rightarrow> Inr (Some (VInt32 (word_of_int num))))
           | _ \<Rightarrow> Inl (ExpectedInt32 (rowNum + 1) (Name field) val))
      | TFloat64 \<Rightarrow>
          (case val of
             JNumber v \<Rightarrow> Inr (Some (VFloat64 v))
           | JString v \<Rightarrow>
               if v = [] \<and> Nullable field then Inr None
               else (case ParseFloat L v of
                       None \<Rightarrow> Inl (InvalidFloat64 (rowNum + 1) (Name field) v)
                     | Some num \<Rightarrow> Inr (Some (VFloat64 num)))
           | _ \<Rightarrow> Inl (ExpectedFloat64 (rowNum + 1) (Name field) val))
      | TString \<Rightarrow>
          (case val of
             JString v \<Rightarrow>
               if v = [] \<and> Nullable field then Inr None else Inr (Some (VString v))
           | _ \<Rightarrow> Inr (Some (VString (Sprint L val))))
      | TTimestamp u \<Rightarrow>
          (case val of
             JString v \<Rightarrow>
               if v = [] \<and> Nullable field then Inr None
               else (case time_Parse L v of
                       None \<Rightarrow> Inl (InvalidTimestamp (rowNum + 1) (Name field) v)
                     | Some tm \<Rightarrow>
                         (case timestampEpoch u tm of
                            Inl e \<Rightarrow> Inl e
                          | Inr epoch \<Rightarrow> Inr (Some (VTimestamp epoch))))
           | _ \<Rightarrow> Inl (InvalidTimestampType (rowNum + 1) (Name field) val))
      | _ \<Rightarrow> Inl (UnsupportedType (Type field)))"

definition jsonValue :: "golib \<Rightarrow> nat \<Rightarrow> json_object \<Rightarrow> Field \<Rightarrow> error + val option" where
  "jsonValue L rowNum rec field =
     (case rec (Name field) of
        None \<Rightarrow>
          if Nullable field then Inr None
          else Inl (MissingNonNullable (rowNum + 1) (Name field))
      | Some val \<Rightarrow>
          if val = JNull
          then (if Nullable field then Inr None
                else Inl (MissingNonNullable (rowNum + 1) (Name field)))
          else jsonTyped L rowNum field val)"

fun jsonRows ::
  "golib \<Rightarrow> schema \<Rightarrow> nat \<Rightarrow> json_object list \<Rightarrow> builder list \<Rightarrow> error + builder list" where
  "jsonRows L schema rowNum [] builders = Inr builders"
| "jsonRows L schema rowNum (rec # rest) builders =
     (case appendValues (jsonValue L rowNum rec) schema builders of
        Inl e \<Rightarrow> Inl e
      | Inr builders' \<Rightarrow> jsonRows L schema (rowNum + 1) rest builders')"

definition loadDataFromJSON :: "golib \<Rightarrow> json_file option \<Rightarrow> schema \<Rightarrow> error + batch" where
  "loadDataFromJSON L file schema =
     (case mapE newBuilder schema of
        Inl e \<Rightarrow> Inl e
      | Inr builders \<Rightarrow>
          (case file of
             None \<Rightarrow> Inl OpenFailed
           | Some f \<Rightarrow>
               (case readJSON f of
                  Inl e \<Rightarrow> Inl e
                | Inr records \<Rightarrow>
                    (case jsonRows L schema 0 records builders of
                       Inl e \<Rightarrow> Inl e
                     | Inr builders' \<Rightarrow> buildRecord schema builders'))))"

section \<open>\<open>loadBlobRecord\<close>\<close>

text \<open>
  One builder per field: a binary builder for Binary and LargeBinary, a string builder
  for String and for every other type. A field whose name is in the map gets the content
  of the file (a read failure ends the run), appended as bytes to a binary builder and
  as a string to a string builder; any other field gets a null. \<open>NewRecord\<close> is called
  with 1 row.
\<close>

definition blobBuilder :: "Field \<Rightarrow> builder" where
  "blobBuilder f =
     (case Type f of
        TBinary \<Rightarrow> NewBuilder TBinary
      | TLargeBinary \<Rightarrow> NewBuilder TLargeBinary
      | TString \<Rightarrow> NewBuilder TString
      | _ \<Rightarrow> NewBuilder TString)"

definition blobValue :: "golib \<Rightarrow> (string \<rightharpoonup> string) \<Rightarrow> Field \<times> builder \<Rightarrow> error + val option" where
  "blobValue L blobs fb =
     (case blobs (Name (fst fb)) of
        Some path \<Rightarrow>
          (case ReadFile L path of
             None \<Rightarrow> Inl (ReadBlobFailed (Name (fst fb)))
           | Some data \<Rightarrow>
               if btype (snd fb) = TBinary \<or> btype (snd fb) = TLargeBinary
               then Inr (Some (VBinary data))
               else Inr (Some (VString data)))
      | None \<Rightarrow> Inr None)"

definition loadBlobRecord :: "golib \<Rightarrow> (string \<rightharpoonup> string) \<Rightarrow> schema \<Rightarrow> error + batch" where
  "loadBlobRecord L blobs schema =
     (let builders = map blobBuilder schema
      in case appendValues (blobValue L blobs) (zip schema builders) builders of
           Inl e \<Rightarrow> Inl e
         | Inr builders' \<Rightarrow> NewRecord schema (map NewArray builders') 1)"


section \<open>Predicates and inputs used in the statements\<close>

text \<open>
  \<open>conforms schema b\<close>: the batch has one column per field, of the field's type and at
  least as long as its row count, which is not negative; these are the batches that
  \<open>NewRecord\<close> builds for a non-empty schema. \<open>appendBatches\<close> states concatenation in the
  words of the specification: column by column, the inputs' slots in input order, and
  the sum of the row counts.
\<close>

definition conforms :: "schema \<Rightarrow> batch \<Rightarrow> bool" where
  "conforms schema b =
     (0 \<le> NumRows b \<and>
      list_all2 (\<lambda>arr f. NumRows b \<le> int (Len arr) \<and> DataType arr = Type f) (Columns b) schema)"

definition appendBatches :: "schema \<Rightarrow> batch list \<Rightarrow> batch" where
  "appendBatches schema records =
     \<lparr>Schema = schema,
      Columns = map (\<lambda>i. \<lparr>DataType = Type (schema ! i),
                           vals = concat (map (\<lambda>rec. vals (Columns rec ! i)) records)\<rparr>)
                    [0 ..< length schema],
      NumRows = sum_list (map NumRows records)\<rparr>"

text \<open>
  Inputs of the examples. \<open>exampleLib\<close> parses timestamps with \<open>parseRFC3339\<close>, holds one
  file \<open>/tmp/a.bin\<close>, and converts an unrepresentable number to the minimum integer (as
  the amd64 conversion instructions do); its \<open>ParseFloat\<close> and \<open>Sprint\<close> are never
  reached by the examples.
\<close>

definition exampleLib :: golib where
  "exampleLib =
     \<lparr>ParseFloat = (\<lambda>s. None),
      time_Parse = parseRFC3339,
      Sprint = (\<lambda>v. []),
      int64_unrepresentable = (\<lambda>v. - (2 ^ 63)),
      int32_unrepresentable = (\<lambda>v. - (2 ^ 31)),
      ReadFile = [''/tmp/a.bin'' \<mapsto> ''PNG'']\<rparr>"


definition idAgeSchema :: schema where
  "idAgeSchema =
     [\<lparr>Name = ''id'', Type = TInt64, Nullable = False, Metadata = Map.empty\<rparr>,
      \<lparr>Name = ''age'', Type = TInt32, Nullable = True, Metadata = Map.empty\<rparr>]"

definition photoSchema :: schema where
  "photoSchema =
     [\<lparr>Name = ''photo'', Type = TBinary, Nullable = True, Metadata = Map.empty\<rparr>,
      \<lparr>Name = ''caption'', Type = TString, Nullable = True, Metadata = Map.empty\<rparr>]"

definition int32Column :: "int list \<Rightarrow> column" where
  "int32Column xs = \<lparr>DataType = TInt32, vals = map (\<lambda>x. Some (VInt32 (word_of_int x))) xs\<rparr>"

definition int64Column :: "int list \<Rightarrow> column" where
  "int64Column xs = \<lparr>DataType = TInt64, vals = map (\<lambda>x. Some (VInt64 (word_of_int x))) xs\<rparr>"

definition idAgeBatch :: "(int \<times> int option) list \<Rightarrow> batch" where
  "idAgeBatch rows =
     \<lparr>Schema = idAgeSchema,
      Columns =
        [\<lparr>DataType = TInt64, vals = map (\<lambda>r. Some (VInt64 (word_of_int (fst r)))) rows\<rparr>,
         \<lparr>DataType = TInt32,
          vals = map (\<lambda>r. map_option (\<lambda>a. VInt32 (word_of_int a)) (snd r)) rows\<rparr>],
      NumRows = int (length rows)\<rparr>"

text \<open>
  \<open>readable\<close>: the file mapped to the field, if any, can be read. \<open>blobType\<close>: the field
  is Binary, LargeBinary or String.
\<close>

definition readable :: "golib \<Rightarrow> (string \<rightharpoonup> string) \<Rightarrow> Field \<Rightarrow> bool" where
  "readable L blobs f =
     (case blobs (Name f) of None \<Rightarrow> True | Some path \<Rightarrow> ReadFile L path \<noteq> None)"

definition blobType :: "Field \<Rightarrow> bool" where
  "blobType f = (Type f = TBinary \<or> Type f = TLargeBinary \<or> Type f = TString)"

definition docSchema :: schema where
  "docSchema = [\<lparr>Name = ''doc'', Type = TLargeBinary, Nullable = False, Metadata = Map.empty\<rparr>]"

definition idOnlyFile :: json_file where
  "idOnlyFile =
     \<lparr>asArray = Some [[''id'' \<mapsto> JNumber (Finite 5)]], seekFails = False, asObjects = []\<rparr>"




text \<open>
  The length of a timestamp unit in nanoseconds, and the instant of a \<open>Time\<close> as its
  exact number of nanoseconds since the epoch.
\<close>

definition nanosPerUnit :: "time_unit \<Rightarrow> int" where
  "nanosPerUnit u =
     (case u of
        Second \<Rightarrow> 1000000000
      | Millisecond \<Rightarrow> 1000000
      | Microsecond \<Rightarrow> 1000
      | Nanosecond \<Rightarrow> 1
      | OtherUnit n \<Rightarrow> 1)"

definition unixNanos :: "Time \<Rightarrow> int" where
  "unixNanos tm = unixSec tm * 1000000000 + int (nsec tm)"

definition tsField :: "time_unit \<Rightarrow> Field" where
  "tsField u = \<lparr>Name = ''ts'', Type = TTimestamp u, Nullable = False, Metadata = Map.empty\<rparr>"

definition idLinesFile :: json_file where
  "idLinesFile =
     \<lparr>asArray = None, seekFails = False,
      asObjects = [Decoded [''id'' \<mapsto> JNumber (Finite 5)]]\<rparr>"

text \<open>\<open>sampleType\<close>: the field's type is one of the four the sample generator has a case for.\<close>

definition sampleType :: "Field \<Rightarrow> bool" where
  "sampleType f = (Type f = TInt64 \<or> Type f = TInt32 \<or> Type f = TString \<or> Type f = TFloat64)"

text \<open>
  Inputs of the foreign-batch examples: a coercion that relabels a batch with the target
  schema, a batch whose schema has no fields, and a batch whose columns have the types
  of \<open>idAgeSchema\<close> in the wrong order.
\<close>

definition relabel :: "schema \<Rightarrow> batch \<Rightarrow> error + batch" where
  "relabel schema rec = Inr (rec\<lparr>Schema := schema\<rparr>)"

definition swappedBatch :: batch where
  "swappedBatch =
     \<lparr>Schema = idAgeSchema,
      Columns = [\<lparr>DataType = TInt32, vals = [Some (VInt32 30)]\<rparr>,
                 \<lparr>DataType = TInt64, vals = [Some (VInt64 3)]\<rparr>],
      NumRows = 1\<rparr>"

section \<open>Auxiliary lemmas\<close>

lemma mapE_Inr: "(\<And>x. x \<in> set xs \<Longrightarrow> f x = Inr (g x)) \<Longrightarrow> mapE f xs = Inr (map g xs)"
  by (induction xs) auto

lemma mapE_length: "mapE f xs = Inr ys \<Longrightarrow> length ys = length xs"
  by (induction xs arbitrary: ys) (auto split: sum.splits)

lemma mapE_nth: "mapE f xs = Inr ys \<Longrightarrow> i < length xs \<Longrightarrow> f (xs ! i) = Inr (ys ! i)"
proof (induction xs arbitrary: ys i)
  case Nil
  then show ?case by simp
next
  case (Cons x xs)
  then show ?case by (cases i) (auto split: sum.splits)
qed

lemma NewRecord_Inr:
  assumes "NewRecord schema cols n = Inr b" "length cols = length schema"
  shows "Schema b = schema \<and> Columns b = cols \<and>
         (\<forall>i<length schema. DataType (cols ! i) = Type (schema ! i))"
proof -
  obtain rows where b: "b = \<lparr>Schema = schema, Columns = cols, NumRows = rows\<rparr>"
    and v: "validate schema cols rows"
    using assms(1) by (auto simp: NewRecord_def Let_def split: if_splits)
  have "\<forall>i<length schema. DataType (cols ! i) = Type (schema ! i)"
    using v assms(2) by (auto simp: validate_def list_all2_conv_all_nth)
  then show ?thesis using b by simp
qed

lemma appendValues_length:
  "appendValues coerce xs bs = Inr bs' \<Longrightarrow> length bs' = length bs"
  by (induction coerce xs bs arbitrary: bs' rule: appendValues.induct)
     (auto split: sum.splits)

lemma csvRows_length:
  "csvRows L schema rowNum fpr rows bs = Inr bs' \<Longrightarrow> length bs' = length bs"
  by (induction L schema rowNum fpr rows bs rule: csvRows.induct)
     (auto split: sum.splits prod.splits option.splits if_splits dest: appendValues_length)

lemma jsonRows_length:
  "jsonRows L schema rowNum records bs = Inr bs' \<Longrightarrow> length bs' = length bs"
  by (induction L schema rowNum records bs rule: jsonRows.induct)
     (auto split: sum.splits dest: appendValues_length)

lemma buildRecord_Inr:
  assumes "buildRecord schema bs = Inr b" "length bs = length schema"
  shows "length (Columns b) = length schema \<and>
         (\<forall>i<length schema. DataType (Columns b ! i) = Type (schema ! i))"
proof -
  obtain n where "NewRecord schema (map NewArray bs) n = Inr b"
    using assms(1) by (auto simp: buildRecord_def Let_def split: list.splits)
  then show ?thesis using NewRecord_Inr [of schema "map NewArray bs" n b] assms(2) by simp
qed

lemma generateSampleData_types:
  assumes "generateSampleData schema = Inr b"
  shows "length (Columns b) = length schema \<and>
         (\<forall>i<length schema. DataType (Columns b ! i) = Type (schema ! i))"
  using NewRecord_Inr [of schema "map sampleArray schema" 5 b] assms
  by (simp add: generateSampleData_def)

lemma loadDataFromFile_types:
  assumes "loadDataFromFile L file schema = Inr b"
  shows "length (Columns b) = length schema \<and>
         (\<forall>i<length schema. DataType (Columns b ! i) = Type (schema ! i))"
proof -
  obtain bs bs' fpr rest where bs: "mapE newBuilder schema = Inr bs"
    and rows: "csvRows L schema 2 fpr rest bs = Inr bs'"
    and rec: "buildRecord schema bs' = Inr b"
    using assms
    by (auto simp: loadDataFromFile_def split: sum.splits option.splits list.splits prod.splits)
  have "length bs' = length schema"
    using mapE_length [OF bs] csvRows_length [OF rows] by simp
  then show ?thesis by (rule buildRecord_Inr [OF rec])
qed

lemma loadDataFromJSON_types:
  assumes "loadDataFromJSON L file schema = Inr b"
  shows "length (Columns b) = length schema \<and>
         (\<forall>i<length schema. DataType (Columns b ! i) = Type (schema ! i))"
proof -
  obtain bs bs' records where bs: "mapE newBuilder schema = Inr bs"
    and rows: "jsonRows L schema 0 records bs = Inr bs'"
    and rec: "buildRecord schema bs' = Inr b"
    using assms
    by (auto simp: loadDataFromJSON_def split: sum.splits option.splits)
  have "length bs' = length schema"
    using mapE_length [OF bs] jsonRows_length [OF rows] by simp
  then show ?thesis by (rule buildRecord_Inr [OF rec])
qed

lemma loadBlobRecord_types:
  assumes "loadBlobRecord L blobs schema = Inr b"
  shows "length (Columns b) = length schema \<and>
         (\<forall>i<length schema. DataType (Columns b ! i) = Type (schema ! i))"
proof -
  obtain bs' where app: "appendValues (blobValue L blobs) (zip schema (map blobBuilder schema))
                           (map blobBuilder schema) = Inr bs'"
    and rec: "NewRecord schema (map NewArray bs') 1 = Inr b"
    using assms by (auto simp: loadBlobRecord_def Let_def split: sum.splits)
  have "length bs' = length schema"
    using appendValues_length [OF app] by simp
  then show ?thesis using NewRecord_Inr [OF rec] by simp
qed

lemma concatRecords_types:
  assumes "concatRecords schema records = Inr (Some b)"
  shows "length (Columns b) = length schema \<and>
         (\<forall>i<length schema. DataType (Columns b ! i) = Type (schema ! i))"
proof -
  obtain cols n where cols: "mapE (\<lambda>i. case mapE (\<lambda>rec. Column rec i) records of
                          Inl e \<Rightarrow> Inl e
                        | Inr arraysToConcat \<Rightarrow> Concatenate arraysToConcat)
                   [0 ..< length schema] = Inr cols"
    and rec: "NewRecord schema cols n = Inr b"
    using assms by (auto simp: concatRecords_def split: if_splits sum.splits)
  have "length cols = length schema" using mapE_length [OF cols] by simp
  then show ?thesis using NewRecord_Inr [OF rec] by simp
qed

lemma loadDataFromORCToParquet_types:
  assumes "loadDataFromORCToParquet CoerceRecord src schema = Inr (Some b)"
  shows "length (Columns b) = length schema \<and>
         (\<forall>i<length schema. DataType (Columns b ! i) = Type (schema ! i))"
proof -
  obtain allBatches where "concatRecords schema allBatches = Inr (Some b)"
    using assms
    by (auto simp: loadDataFromORCToParquet_def
             split: parquet_source.splits sum.splits if_splits)
  then show ?thesis by (rule concatRecords_types)
qed

lemma conforms_length: "conforms schema b \<Longrightarrow> length (Columns b) = length schema"
  by (auto simp: conforms_def dest: list_all2_lengthD)

lemma conforms_nth:
  "conforms schema b \<Longrightarrow> i < length schema \<Longrightarrow>
     DataType (Columns b ! i) = Type (schema ! i) \<and> NumRows b \<le> int (Len (Columns b ! i))"
  by (auto simp: conforms_def list_all2_conv_all_nth)

lemma gather_columns:
  assumes "list_all (conforms schema) records" "i < length schema"
  shows "mapE (\<lambda>rec. Column rec i) records = Inr (map (\<lambda>rec. Columns rec ! i) records)"
proof (rule mapE_Inr)
  fix b assume "b \<in> set records"
  then have "length (Columns b) = length schema"
    using assms(1) conforms_length by (auto simp: list_all_iff)
  then show "Column b i = Inr (Columns b ! i)"
    using assms(2) by (simp add: Column_def)
qed

lemma Concatenate_column:
  assumes "records \<noteq> []" "list_all (conforms schema) records" "i < length schema"
  shows "Concatenate (map (\<lambda>rec. Columns rec ! i) records) =
           Inr \<lparr>DataType = Type (schema ! i),
                vals = concat (map (\<lambda>rec. vals (Columns rec ! i)) records)\<rparr>"
proof -
  obtain r rs where rs: "records = r # rs" using assms(1) by (cases records) auto
  have "\<And>b. b \<in> set records \<Longrightarrow> DataType (Columns b ! i) = Type (schema ! i)"
    using assms by (simp add: conforms_nth list_all_iff)
  then show ?thesis
    by (simp add: Concatenate_def rs list_all_iff comp_def)
qed

lemma rows_le_length:
  assumes "list_all (conforms schema) records" "i < length schema"
  shows "sum_list (map NumRows records)
           \<le> int (length (concat (map (\<lambda>rec. vals (Columns rec ! i)) records)))"
  using assms(1)
proof (induction records)
  case Nil
  then show ?case by simp
next
  case (Cons r rs)
  have "NumRows r \<le> int (length (vals (Columns r ! i)))"
    using conforms_nth [of schema r i] Cons.prems assms(2) by (simp add: Len_def)
  moreover have "sum_list (map NumRows rs)
           \<le> int (length (concat (map (\<lambda>rec. vals (Columns rec ! i)) rs)))"
    using Cons by simp
  ultimately show ?case by simp
qed

lemma rows_nonneg:
  "list_all (conforms schema) records \<Longrightarrow> 0 \<le> sum_list (map NumRows records)"
  by (induction records) (auto simp: conforms_def)

lemma conforms_appendBatches:
  assumes "list_all (conforms schema) records"
  shows "conforms schema (appendBatches schema records)"
  using rows_le_length [OF assms] rows_nonneg [OF assms]
  by (simp add: conforms_def appendBatches_def list_all2_conv_all_nth Len_def)

lemma concatRecords_conforming:
  assumes "records \<noteq> []" "list_all (conforms schema) records"
  shows "concatRecords schema records = Inr (Some (appendBatches schema records))"
proof -
  let ?col = "\<lambda>i. \<lparr>DataType = Type (schema ! i),
                    vals = concat (map (\<lambda>rec. vals (Columns rec ! i)) records)\<rparr>"
  have cols: "mapE (\<lambda>i. case mapE (\<lambda>rec. Column rec i) records of
                          Inl e \<Rightarrow> Inl e
                        | Inr arraysToConcat \<Rightarrow> Concatenate arraysToConcat)
                   [0 ..< length schema] = Inr (map ?col [0 ..< length schema])"
  proof (rule mapE_Inr)
    fix i assume "i \<in> set [0 ..< length schema]"
    then have i: "i < length schema" by simp
    show "(case mapE (\<lambda>rec. Column rec i) records of
             Inl e \<Rightarrow> Inl e
           | Inr arraysToConcat \<Rightarrow> Concatenate arraysToConcat) = Inr (?col i)"
      using gather_columns [OF assms(2) i] Concatenate_column [OF assms i] by simp
  qed
  have "conforms schema (appendBatches schema records)"
    using assms(2) by (rule conforms_appendBatches)
  then have "validate schema (map ?col [0 ..< length schema]) (sum_list (map NumRows records))"
    by (auto simp: validate_def conforms_def appendBatches_def list_all2_conv_all_nth
          not_less)
  moreover have "\<not> sum_list (map NumRows records) < 0"
    using rows_nonneg [OF assms(2)] by simp
  ultimately show ?thesis
    using assms(1) by (simp add: concatRecords_def cols NewRecord_def appendBatches_def)
qed

lemma appendBatches_flatten_left:
  "appendBatches schema (appendBatches schema xs # ys) = appendBatches schema (xs @ ys)"
  by (simp add: appendBatches_def)

lemma appendBatches_flatten_right:
  "appendBatches schema (xs @ [appendBatches schema ys]) = appendBatches schema (xs @ ys)"
  by (simp add: appendBatches_def)

lemma types_map:
  "length cs = length schema \<and> (\<forall>i<length schema. DataType (cs ! i) = Type (schema ! i))
     \<Longrightarrow> map DataType cs = map Type schema"
  by (simp add: list_eq_iff_nth_eq)

lemma generateSampleData_idAge:
  "generateSampleData idAgeSchema =
     Inr \<lparr>Schema = idAgeSchema,
          Columns = [int64Column [1, 2, 3, 4, 5], int32Column [20, 21, 22, 23, 24]],
          NumRows = 5\<rparr>"
  by (simp add: generateSampleData_def idAgeSchema_def sampleArray_def NewRecord_def
      validate_def Len_def int64Column_def int32Column_def upt_rec)

lemma appendBatches_vals:
  "i < length schema \<Longrightarrow>
     vals (Columns (appendBatches schema records) ! i)
       = concat (map (\<lambda>b. vals (Columns b ! i)) records)"
  by (simp add: appendBatches_def)

lemma conforms_idAgeBatch: "conforms idAgeSchema (idAgeBatch rows)"
  by (simp add: conforms_def idAgeBatch_def idAgeSchema_def Len_def)

lemma NewRecord_rows:
  "NewRecord schema cols n = Inr b \<Longrightarrow> 0 \<le> n \<Longrightarrow> NumRows b = n \<and> Columns b = cols"
  by (auto simp: NewRecord_def Let_def split: if_splits)

lemma appendValues_nth:
  "appendValues coerce xs bs = Inr bs' \<Longrightarrow> length xs = length bs \<Longrightarrow> i < length xs \<Longrightarrow>
     \<exists>v. coerce (xs ! i) = Inr v \<and> bs' ! i = Append (bs ! i) v"
proof (induction coerce xs bs arbitrary: bs' i rule: appendValues.induct)
  case (3 coerce x xs b bs)
  then show ?case by (cases i) (auto split: sum.splits)
qed simp_all

lemma appendValues_total:
  "length xs = length bs \<Longrightarrow> (\<And>x. x \<in> set xs \<Longrightarrow> \<exists>v. coerce x = Inr v) \<Longrightarrow>
     \<exists>bs'. appendValues coerce xs bs = Inr bs'"
proof (induction coerce xs bs rule: appendValues.induct)
  case (3 coerce x xs b bs)
  obtain v where v: "coerce x = Inr v" using "3.prems"(2) [of x] by auto
  obtain bs' where "appendValues coerce xs bs = Inr bs'"
    using "3.IH" [OF v] "3.prems" by auto
  then show ?case using v by simp
qed simp_all

lemma blobValue_cases:
  assumes "blobValue L blobs (f, blobBuilder f) = Inr v"
  shows "(blobs (Name f) = None \<longrightarrow> v = None) \<and>
         (\<forall>path. blobs (Name f) = Some path \<longrightarrow>
            (\<exists>data. ReadFile L path = Some data \<and>
               v = Some (if btype (blobBuilder f) = TString then VString data
                         else VBinary data)))"
  using assms
  by (auto simp: blobValue_def blobBuilder_def NewBuilder_def
           split: option.splits data_type.splits if_splits)

lemma blobBuilder_type:
  "btype (blobBuilder f) = Type f \<Longrightarrow> blobType f"
  by (auto simp: blobBuilder_def NewBuilder_def blobType_def split: data_type.splits)

lemma blobType_builder:
  "blobType f \<Longrightarrow> btype (blobBuilder f) = Type f \<and> bvals (blobBuilder f) = []"
  by (auto simp: blobBuilder_def NewBuilder_def blobType_def)

lemma loadBlobRecord_column:
  assumes "loadBlobRecord L blobs schema = Inr b" "i < length schema"
  shows "blobType (schema ! i) \<and>
         (blobs (Name (schema ! i)) = None \<longrightarrow> vals (Columns b ! i) = [None]) \<and>
         (\<forall>path. blobs (Name (schema ! i)) = Some path \<longrightarrow>
            (\<exists>data. ReadFile L path = Some data \<and>
               vals (Columns b ! i) =
                 [Some (if Type (schema ! i) = TString then VString data else VBinary data)]))"
proof -
  let ?bs = "map blobBuilder schema"
  let ?f = "schema ! i"
  obtain bs' where app: "appendValues (blobValue L blobs) (zip schema ?bs) ?bs = Inr bs'"
    and rec: "NewRecord schema (map NewArray bs') 1 = Inr b"
    using assms(1) by (auto simp: loadBlobRecord_def Let_def split: sum.splits)
  have len: "length bs' = length schema"
    using appendValues_length [OF app] by simp
  obtain v where v: "blobValue L blobs (?f, blobBuilder ?f) = Inr v"
    and b': "bs' ! i = Append (blobBuilder ?f) v"
    using appendValues_nth [OF app, of i] assms(2) by auto
  have cols: "Columns b = map NewArray bs'"
    using NewRecord_rows [OF rec] by simp
  have "DataType (map NewArray bs' ! i) = Type ?f"
    using NewRecord_Inr [OF rec] len assms(2) by simp
  then have ty: "btype (blobBuilder ?f) = Type ?f"
    using b' len assms(2) by (simp add: NewArray_def Append_def)
  have empty: "bvals (blobBuilder ?f) = []"
    using blobType_builder [OF blobBuilder_type [OF ty]] by simp
  have "vals (Columns b ! i) = [v]"
    using cols b' len assms(2) empty by (simp add: NewArray_def Append_def)
  then show ?thesis
    using blobValue_cases [OF v] ty blobBuilder_type [OF ty] by simp
qed

lemma loadBlobRecord_total:
  assumes "list_all blobType schema" "list_all (readable L blobs) schema"
  shows "\<exists>b. loadBlobRecord L blobs schema = Inr b"
proof -
  let ?bs = "map blobBuilder schema"
  have "\<exists>v. blobValue L blobs x = Inr v" if "x \<in> set (zip schema ?bs)" for x
  proof -
    obtain f bld where x: "x = (f, bld)" by (cases x)
    have "f \<in> set schema" using that unfolding x by (rule set_zip_leftD)
    then have "fst x \<in> set schema" using x by simp
    then have "readable L blobs (fst x)" using assms(2) by (simp add: list_all_iff)
    then show ?thesis
      by (auto simp: blobValue_def readable_def split: option.splits)
  qed
  then obtain bs' where app: "appendValues (blobValue L blobs) (zip schema ?bs) ?bs = Inr bs'"
    using appendValues_total [of "zip schema ?bs" ?bs "blobValue L blobs"] by auto
  have len: "length bs' = length schema"
    using appendValues_length [OF app] by simp
  have "\<not> int (Len (NewArray (bs' ! i))) < 1 \<and> DataType (NewArray (bs' ! i)) = Type (schema ! i)"
    if i: "i < length schema" for i
  proof -
    obtain v where "bs' ! i = Append (blobBuilder (schema ! i)) v"
      using appendValues_nth [OF app, of i] i by auto
    moreover have "blobType (schema ! i)"
      using assms(1) i by (simp add: list_all_length)
    ultimately show ?thesis
      using blobType_builder [of "schema ! i"] by (simp add: NewArray_def Append_def Len_def)
  qed
  then have "validate schema (map NewArray bs') 1"
    using len by (simp add: validate_def list_all2_conv_all_nth)
  then show ?thesis
    using app by (simp add: loadBlobRecord_def NewRecord_def)
qed

lemma jsonRows_columns:
  "jsonRows L schema n records bs = Inr bs' \<Longrightarrow> length bs = length schema \<Longrightarrow>
   i < length schema \<Longrightarrow>
     btype (bs' ! i) = btype (bs ! i) \<and>
     (\<exists>vs. bvals (bs' ! i) = bvals (bs ! i) @ vs \<and> length vs = length records \<and>
        (\<forall>k<length records. jsonValue L (n + k) (records ! k) (schema ! i) = Inr (vs ! k)))"
proof (induction records arbitrary: n bs)
  case Nil
  then show ?case by simp
next
  case (Cons r rest)
  obtain bs1 where a: "appendValues (jsonValue L n r) schema bs = Inr bs1"
    and rows: "jsonRows L schema (n + 1) rest bs1 = Inr bs'"
    using Cons.prems(1) by (auto split: sum.splits)
  have len1: "length bs1 = length schema"
    using appendValues_length [OF a] Cons.prems(2) by simp
  obtain v where v: "jsonValue L n r (schema ! i) = Inr v"
    and b1: "bs1 ! i = Append (bs ! i) v"
    using appendValues_nth [OF a, of i] Cons.prems(2,3) by auto
  obtain vs where ty: "btype (bs' ! i) = btype (bs1 ! i)"
    and vs: "bvals (bs' ! i) = bvals (bs1 ! i) @ vs" "length vs = length rest"
    and each: "\<forall>k<length rest. jsonValue L (n + 1 + k) (rest ! k) (schema ! i) = Inr (vs ! k)"
    using Cons.IH [OF rows len1 Cons.prems(3)] by auto
  have "\<forall>k<length (r # rest).
          jsonValue L (n + k) ((r # rest) ! k) (schema ! i) = Inr ((v # vs) ! k)"
  proof (intro allI impI)
    fix k assume "k < length (r # rest)"
    then show "jsonValue L (n + k) ((r # rest) ! k) (schema ! i) = Inr ((v # vs) ! k)"
      using v each by (cases k) auto
  qed
  moreover have "bvals (bs' ! i) = bvals (bs ! i) @ (v # vs)"
    using vs b1 by (simp add: Append_def)
  moreover have "btype (bs' ! i) = btype (bs ! i)"
    using ty b1 by (simp add: Append_def)
  moreover have "length (v # vs) = length (r # rest)" using vs by simp
  ultimately show ?case by blast
qed

lemma newBuilder_empty: "newBuilder f = Inr bld \<Longrightarrow> bvals bld = [] \<and> btype bld = Type f"
  by (auto simp: newBuilder_def NewBuilder_def split: data_type.splits)

lemma newBuilders_empty:
  assumes "mapE newBuilder schema = Inr bs" "i < length schema"
  shows "bvals (bs ! i) = [] \<and> btype (bs ! i) = Type (schema ! i)"
  using mapE_nth [OF assms] by (rule newBuilder_empty)

lemma buildRecord_rows:
  assumes "buildRecord schema bs = Inr b"
  shows "bs \<noteq> [] \<and> Columns b = map NewArray bs \<and> NumRows b = int (length (bvals (hd bs)))"
proof -
  obtain bld rest where bs: "bs = bld # rest"
    using assms by (cases bs) (auto simp: buildRecord_def)
  have "NewRecord schema (map NewArray bs) (int (Len (NewArray bld))) = Inr b"
    using assms by (simp add: buildRecord_def bs)
  then show ?thesis
    using NewRecord_rows [of schema "map NewArray bs" "int (Len (NewArray bld))" b] bs
    by (simp add: Len_def NewArray_def)
qed

lemma loadDataFromJSON_Inr:
  assumes "loadDataFromJSON L (Some jf) schema = Inr b"
  shows "\<exists>records. readJSON jf = Inr records \<and> NumRows b = int (length records) \<and>
           length (Columns b) = length schema \<and>
           (\<forall>i<length schema.
              length (vals (Columns b ! i)) = length records \<and>
              (\<forall>k<length records.
                 jsonValue L k (records ! k) (schema ! i) = Inr (vals (Columns b ! i) ! k)))"
proof -
  obtain bs bs' records where bs: "mapE newBuilder schema = Inr bs"
    and rd: "readJSON jf = Inr records"
    and rows: "jsonRows L schema 0 records bs = Inr bs'"
    and rec: "buildRecord schema bs' = Inr b"
    using assms
    by (auto simp: loadDataFromJSON_def split: sum.splits)
  have len: "length bs = length schema" using mapE_length [OF bs] .
  have len': "length bs' = length schema" using jsonRows_length [OF rows] len by simp
  have cols: "Columns b = map NewArray bs'" and ne: "bs' \<noteq> []"
    and nr: "NumRows b = int (length (bvals (hd bs')))"
    using buildRecord_rows [OF rec] by simp_all
  have col: "length (bvals (bs' ! i)) = length records \<and>
             (\<forall>k<length records.
                jsonValue L k (records ! k) (schema ! i) = Inr (bvals (bs' ! i) ! k))"
    if i: "i < length schema" for i
    using jsonRows_columns [OF rows len i] newBuilders_empty [OF bs i] by auto
  have "0 < length schema" using ne len' by (cases bs') auto
  then have "length (bvals (bs' ! 0)) = length records" using col by blast
  then have "NumRows b = int (length records)" using nr ne by (simp add: hd_conv_nth)
  moreover have "length (vals (Columns b ! i)) = length records \<and>
              (\<forall>k<length records.
                 jsonValue L k (records ! k) (schema ! i) = Inr (vals (Columns b ! i) ! k))"
    if i: "i < length schema" for i
    using col [OF i] cols len' i by (simp add: NewArray_def)
  ultimately show ?thesis using rd cols len' by auto
qed

lemma jsonValue_missing:
  "rec (Name f) = None \<or> rec (Name f) = Some JNull \<Longrightarrow>
     jsonValue L rowNum rec f =
       (if Nullable f then Inr None else Inl (MissingNonNullable (rowNum + 1) (Name f)))"
  by (auto simp: jsonValue_def)

lemma loadDataFromJSON_idOnly:
  "loadDataFromJSON L (Some idOnlyFile) idAgeSchema = Inr (idAgeBatch [(5, None)])"
  by (simp add: loadDataFromJSON_def idOnlyFile_def idAgeSchema_def newBuilder_def
      NewBuilder_def readJSON_def jsonValue_def jsonTyped_def int64_of_float64_def trunc_def
      Append_def buildRecord_def NewArray_def NewRecord_def validate_def Len_def
      idAgeBatch_def)

lemma readRecord_Some:
  "readRecord fpr r = (Some row, fpr') \<Longrightarrow>
     r = Rec row \<and> (0 < fpr \<longrightarrow> fpr' = fpr \<and> length row = fpr)"
  by (auto simp: readRecord_def split: csv_record.splits if_splits)

lemma csvRows_rows:
  "csvRows L schema n fpr recs bs = Inr bs' \<Longrightarrow>
     \<exists>rows. recs = map Rec rows \<and> (\<forall>row\<in>set rows. length row = length schema)"
proof (induction recs arbitrary: n fpr bs)
  case Nil
  then show ?case by simp
next
  case (Cons r rest)
  obtain row fpr' bs1 where rd: "readRecord fpr r = (Some row, fpr')"
    and len: "length row = length schema"
    and rows: "csvRows L schema (n + 1) fpr' rest bs1 = Inr bs'"
    using Cons.prems
    by (auto split: prod.splits option.splits if_splits sum.splits)
  obtain rows where "rest = map Rec rows" "\<forall>row\<in>set rows. length row = length schema"
    using Cons.IH [OF rows] by blast
  then have "r # rest = map Rec (row # rows) \<and>
             (\<forall>x\<in>set (row # rows). length x = length schema)"
    using readRecord_Some [OF rd] len by simp
  then show ?case by (intro exI [of _ "row # rows"])
qed

lemma csvRows_values:
  "csvRows L schema n fpr (map Rec rows) bs = Inr bs' \<Longrightarrow> length bs = length schema \<Longrightarrow>
   i < length schema \<Longrightarrow>
     btype (bs' ! i) = btype (bs ! i) \<and>
     (\<exists>vs. bvals (bs' ! i) = bvals (bs ! i) @ vs \<and> length vs = length rows \<and>
        (\<forall>k<length rows. csvValue L (n + k) (schema ! i) (rows ! k ! i) = Inr (vs ! k)))"
proof (induction rows arbitrary: n fpr bs)
  case Nil
  then show ?case by simp
next
  case (Cons row rest)
  obtain fpr' bs1 where rd: "readRecord fpr (Rec row) = (Some row, fpr')"
    and rlen: "length row = length schema"
    and a: "appendValues (\<lambda>(field, val). csvValue L n field val) (zip schema row) bs = Inr bs1"
    and rows: "csvRows L schema (n + 1) fpr' (map Rec rest) bs1 = Inr bs'"
    using Cons.prems(1)
    by (auto simp: readRecord_def split: prod.splits option.splits if_splits sum.splits)
  have len1: "length bs1 = length schema"
    using appendValues_length [OF a] Cons.prems(2) by simp
  obtain v where v: "csvValue L n (schema ! i) (row ! i) = Inr v"
    and b1: "bs1 ! i = Append (bs ! i) v"
    using appendValues_nth [OF a, of i] Cons.prems(2,3) rlen by auto
  obtain vs where ty: "btype (bs' ! i) = btype (bs1 ! i)"
    and vs: "bvals (bs' ! i) = bvals (bs1 ! i) @ vs" "length vs = length rest"
    and each: "\<forall>k<length rest.
                 csvValue L (n + 1 + k) (schema ! i) (rest ! k ! i) = Inr (vs ! k)"
    using Cons.IH [OF rows len1 Cons.prems(3)] by auto
  have "\<forall>k<length (row # rest).
          csvValue L (n + k) (schema ! i) ((row # rest) ! k ! i) = Inr ((v # vs) ! k)"
  proof (intro allI impI)
    fix k assume "k < length (row # rest)"
    then show "csvValue L (n + k) (schema ! i) ((row # rest) ! k ! i) = Inr ((v # vs) ! k)"
      using v each by (cases k) auto
  qed
  moreover have "bvals (bs' ! i) = bvals (bs ! i) @ (v # vs)"
    using vs b1 by (simp add: Append_def)
  moreover have "btype (bs' ! i) = btype (bs ! i)"
    using ty b1 by (simp add: Append_def)
  moreover have "length (v # vs) = length (row # rest)" using vs by simp
  ultimately show ?case by blast
qed

lemma csvRows_append:
  "0 < fpr \<Longrightarrow>
     csvRows L schema n fpr (xs @ ys) bs =
       (case csvRows L schema n fpr xs bs of
          Inl e \<Rightarrow> Inl e
        | Inr bs1 \<Rightarrow> csvRows L schema (n + length xs) fpr ys bs1)"
proof (induction xs arbitrary: n bs)
  case Nil
  then show ?case by simp
next
  case (Cons r rest)
  show ?case
  proof (cases "readRecord fpr r")
    case (Pair res fpr')
    show ?thesis
    proof (cases res)
      case None
      then show ?thesis using Pair by simp
    next
      case (Some row)
      then have "fpr' = fpr" using readRecord_Some [of fpr r row fpr'] Pair Cons.prems by simp
      then show ?thesis
        using Pair Some Cons.IH [OF Cons.prems] by (simp split: sum.splits)
    qed
  qed
qed

lemma loadDataFromFile_unfold:
  assumes "mapE newBuilder schema = Inr bs0" "hdr \<noteq> []"
  shows "loadDataFromFile L (Some (Rec hdr # recs)) schema =
           (case csvRows L schema 2 (length hdr) recs bs0 of
              Inl e \<Rightarrow> Inl e
            | Inr bs' \<Rightarrow> buildRecord schema bs')"
  using assms by (simp add: loadDataFromFile_def readRecord_def)

lemma csvRows_bad_row:
  assumes "0 < fpr" "length row \<noteq> length schema"
  shows "csvRows L schema n fpr (Rec row # rest) bs =
           Inl (if length row = fpr then FieldCountMismatch n (length schema) (length row)
                else RowReadError n)"
  using assms by (simp add: readRecord_def)

lemma loadDataFromFile_Inr_rows:
  assumes "loadDataFromFile L (Some (h # recs)) schema = Inr b"
  shows "\<exists>rows. recs = map Rec rows \<and> (\<forall>row\<in>set rows. length row = length schema) \<and>
           (\<forall>i<length schema. \<forall>k<length rows.
              \<exists>v. csvValue L (2 + k) (schema ! i) (rows ! k ! i) = Inr v)"
proof -
  obtain bs fpr bs' where bs: "mapE newBuilder schema = Inr bs"
    and rows: "csvRows L schema 2 fpr recs bs = Inr bs'"
    using assms
    by (auto simp: loadDataFromFile_def split: sum.splits prod.splits option.splits)
  obtain rws where r: "recs = map Rec rws" "\<forall>row\<in>set rws. length row = length schema"
    using csvRows_rows [OF rows] by blast
  have "\<forall>i<length schema. \<forall>k<length rws.
              \<exists>v. csvValue L (2 + k) (schema ! i) (rws ! k ! i) = Inr v"
    using csvRows_values [of L schema 2 fpr rws bs bs'] rows r(1) mapE_length [OF bs]
    by blast
  then show ?thesis using r by blast
qed


lemma not_Inr_Inl: "(\<And>b. x \<noteq> Inr b) \<Longrightarrow> \<exists>e. x = Inl e"
  by (cases x) auto





lemma sint_word64:
  "- (2 ^ 63) \<le> x \<Longrightarrow> x < 2 ^ 63 \<Longrightarrow> sint (word_of_int x :: 64 word) = x"
  by (simp add: signed_of_int signed_take_bit_int_eq_self)


lemma timestampEpoch_exact:
  assumes "u = Second \<or> u = Millisecond \<or> u = Microsecond \<or> u = Nanosecond"
    and "nsec tm < 1000000000"
  shows "timestampEpoch u tm = Inr (word_of_int (unixNanos tm div nanosPerUnit u))"
proof -
  have s: "unixNanos tm div 1000000000 = unixSec tm"
    using assms(2) by (simp add: unixNanos_def)
  have "(unixSec tm * 1000 * 1000000 + int (nsec tm)) div 1000000
          = unixSec tm * 1000 + int (nsec tm) div 1000000"
    by simp
  then have m: "unixNanos tm div 1000000 = unixSec tm * 1000 + int (nsec tm div 1000000)"
    by (simp add: unixNanos_def zdiv_int)
  have "(unixSec tm * 1000000 * 1000 + int (nsec tm)) div 1000
          = unixSec tm * 1000000 + int (nsec tm) div 1000"
    by simp
  then have c: "unixNanos tm div 1000 = unixSec tm * 1000000 + int (nsec tm div 1000)"
    by (simp add: unixNanos_def zdiv_int)
  show ?thesis
    using assms(1) s m c
    by (auto simp: timestampEpoch_def nanosPerUnit_def Unix_def UnixMilli_def UnixMicro_def
        UnixNano_def unixNanos_def)
qed

lemma small_units_fit:
  assumes "- 62167305600 \<le> unixSec tm" "unixSec tm \<le> 253402387199" "nsec tm < 1000000000"
    and "u = Second \<or> u = Millisecond \<or> u = Microsecond"
  shows "- (2 ^ 63) \<le> unixNanos tm div nanosPerUnit u \<and>
         unixNanos tm div nanosPerUnit u < 2 ^ 63"
proof -
  have s: "unixNanos tm div 1000000000 = unixSec tm"
    using assms(3) by (simp add: unixNanos_def)
  have "(unixSec tm * 1000 * 1000000 + int (nsec tm)) div 1000000
          = unixSec tm * 1000 + int (nsec tm) div 1000000"
    by simp
  then have m: "unixNanos tm div 1000000 = unixSec tm * 1000 + int (nsec tm div 1000000)"
    by (simp add: unixNanos_def zdiv_int)
  have "(unixSec tm * 1000000 * 1000 + int (nsec tm)) div 1000
          = unixSec tm * 1000000 + int (nsec tm) div 1000"
    by simp
  then have c: "unixNanos tm div 1000 = unixSec tm * 1000000 + int (nsec tm div 1000)"
    by (simp add: unixNanos_def zdiv_int)
  have "nsec tm div 1000000 < 1000" "nsec tm div 1000 < 1000000"
    using assms(3) by simp_all
  then show ?thesis
    using assms(1,2,4) s m c by (auto simp: nanosPerUnit_def)
qed

lemma timestamp_accepted:
  assumes "time_Parse L s = Some tm" "s \<noteq> []" "Type f = TTimestamp u"
    and "u = Second \<or> u = Millisecond \<or> u = Microsecond \<or> u = Nanosecond"
    and "nsec tm < 1000000000"
  shows "csvValue L rowNum f s
           = Inr (Some (VTimestamp (word_of_int (unixNanos tm div nanosPerUnit u)))) \<and>
         jsonTyped L rowNum f (JString s)
           = Inr (Some (VTimestamp (word_of_int (unixNanos tm div nanosPerUnit u))))"
  using assms(1,2,3) timestampEpoch_exact [OF assms(4,5)]
  by (simp add: csvValue_def jsonTyped_def)

lemma timestamp_rejected:
  assumes "Type f = TTimestamp u"
  shows "((\<forall>x. val \<noteq> JString x)
            \<longrightarrow> jsonTyped L rowNum f val = Inl (InvalidTimestampType (rowNum + 1) (Name f) val)) \<and>
         (time_Parse L s' = None \<and> s' \<noteq> []
            \<longrightarrow> csvValue L rowNum f s' = Inl (InvalidTimestamp rowNum (Name f) s') \<and>
                jsonTyped L rowNum f (JString s')
                  = Inl (InvalidTimestamp (rowNum + 1) (Name f) s'))"
  using assms by (cases val) (simp_all add: csvValue_def jsonTyped_def)

lemma parse_2024:
  "time_Parse exampleLib ''2024-01-01T00:00:01Z'' = Some \<lparr>unixSec = 1704067201, nsec = 0\<rparr>"
  by (simp add: exampleLib_def parseRFC3339_def parseUint_def isDigit_def parseDigits_def
      digitVal_def daysIn_def isLeap_def Date_def daysSinceEpoch_def daysBefore_def
      parseZone_def Let_def)

lemma parse_2300:
  "time_Parse exampleLib ''2300-01-01T00:00:00Z'' = Some \<lparr>unixSec = 10413792000, nsec = 0\<rparr>"
  by (simp add: exampleLib_def parseRFC3339_def parseUint_def isDigit_def parseDigits_def
      digitVal_def daysIn_def isLeap_def Date_def daysSinceEpoch_def daysBefore_def
      parseZone_def Let_def)

lemma parse_1969:
  "time_Parse exampleLib ''1969-12-31T23:59:59.5Z''
     = Some \<lparr>unixSec = - 1, nsec = 500000000\<rparr>"
  by (simp add: exampleLib_def parseRFC3339_def parseUint_def isDigit_def parseDigits_def
      digitVal_def daysIn_def isLeap_def Date_def daysSinceEpoch_def daysBefore_def
      parseZone_def parseNanoseconds_def Let_def)

lemma decodeObjects_all: "decodeObjects (map Decoded rows) = Inr rows"
  by (induction rows) auto

lemma decodeObjects_fail:
  "decodeObjects (map Decoded rows @ DecodeFails # rest) = Inl JSONDecodeError"
  by (induction rows) auto

lemma loadDataFromJSON_readJSON:
  "readJSON f = readJSON g \<Longrightarrow>
     loadDataFromJSON L (Some f) schema = loadDataFromJSON L (Some g) schema"
  by (cases "mapE newBuilder schema") (simp_all add: loadDataFromJSON_def)



lemma sampleArray_type: "(DataType (sampleArray f) = Type f) = sampleType f"
  by (cases "Type f") (auto simp: sampleArray_def sampleType_def)

lemma sampleArray_Len: "Len (sampleArray f) = 5"
  by (cases "Type f") (simp_all add: sampleArray_def Len_def)

lemma generateSampleData_total:
  "(\<exists>b. generateSampleData schema = Inr b) = list_all sampleType schema"
proof
  assume "\<exists>b. generateSampleData schema = Inr b"
  then obtain b where b: "NewRecord schema (map sampleArray schema) 5 = Inr b"
    by (auto simp: generateSampleData_def)
  have "\<forall>i<length schema. DataType (map sampleArray schema ! i) = Type (schema ! i)"
    using NewRecord_Inr [OF b] by simp
  then show "list_all sampleType schema"
    by (simp add: list_all_length sampleArray_type)
next
  assume "list_all sampleType schema"
  then have "validate schema (map sampleArray schema) 5"
    by (simp add: validate_def list_all2_conv_all_nth list_all_length sampleArray_type
        sampleArray_Len)
  then show "\<exists>b. generateSampleData schema = Inr b"
    by (simp add: generateSampleData_def NewRecord_def)
qed

lemma loadDataFromFile_idAge:
  "loadDataFromFile L (Some [Rec [''id'', ''age''], Rec [''1'', ''20'']]) idAgeSchema
     = Inr (idAgeBatch [(1, Some 20)])"
  by (simp add: loadDataFromFile_def idAgeSchema_def newBuilder_def NewBuilder_def
      readRecord_def csvValue_def ParseInt_def isDigit_def parseDigits_def digitVal_def
      Append_def buildRecord_def NewArray_def NewRecord_def validate_def Len_def
      idAgeBatch_def)

lemma mapE_Inl: "mapE f xs = Inl e \<Longrightarrow> \<exists>x\<in>set xs. f x = Inl e"
  by (induction xs) (auto split: sum.splits)

lemma coerceBatch_same:
  "list_all (\<lambda>r. Schema r = schema) recs \<Longrightarrow> mapE (coerceBatch C schema) recs = Inr recs"
  by (induction recs) (auto simp: coerceBatch_def)

lemma foreign_conforming:
  assumes "mapE (coerceBatch C schema) recs = Inr allBatches" "allBatches \<noteq> []"
    "list_all (conforms schema) allBatches"
  shows "loadDataFromORCToParquet C (Batches recs) schema
           = Inr (Some (appendBatches schema allBatches))"
  using assms concatRecords_conforming [OF assms(2,3)]
  by (simp add: loadDataFromORCToParquet_def)

lemma Column_error: "Column rec i = Inl e \<Longrightarrow> e = PanicIndexOutOfRange"
  by (auto simp: Column_def split: if_splits)

lemma Concatenate_error:
  "Concatenate arrs = Inl e \<Longrightarrow> arrs \<noteq> [] \<Longrightarrow> e = ConcatTypeMismatch"
  by (auto simp: Concatenate_def split: list.splits if_splits)

lemma NewRecord_error: "NewRecord schema cols n = Inl e \<Longrightarrow> e = PanicNewRecord"
  by (auto simp: NewRecord_def Let_def split: if_splits)

lemma concatRecords_error:
  assumes "concatRecords schema records = Inl e" "\<not> isPanic e"
  shows "e = ConcatTypeMismatch"
proof -
  have ne: "records \<noteq> []" using assms(1) by (auto simp: concatRecords_def)
  let ?f = "\<lambda>i. case mapE (\<lambda>rec. Column rec i) records of
                    Inl e \<Rightarrow> Inl e
                  | Inr arraysToConcat \<Rightarrow> Concatenate arraysToConcat"
  show ?thesis
  proof (cases "mapE ?f [0 ..< length schema]")
    case (Inl e')
    then have e': "e' = e" using assms(1) ne by (simp add: concatRecords_def)
    obtain i where i: "?f i = Inl e" using mapE_Inl [OF Inl] e' by blast
    show ?thesis
    proof (cases "mapE (\<lambda>rec. Column rec i) records")
      case (Inl e2)
      then have "e2 = e" using i by simp
      then obtain rec where "Column rec i = Inl e" using mapE_Inl [OF Inl] by blast
      then have "e = PanicIndexOutOfRange" by (rule Column_error)
      then show ?thesis using assms(2) by (simp add: isPanic_def)
    next
      case (Inr arrs)
      then have "length arrs = length records" by (rule mapE_length)
      then have "arrs \<noteq> []" using ne by auto
      moreover have "Concatenate arrs = Inl e" using i Inr by simp
      ultimately show ?thesis using Concatenate_error by blast
    qed
  next
    case (Inr cols)
    then have "NewRecord schema cols (sum_list (map NumRows records)) = Inl e"
      using assms(1) ne by (simp add: concatRecords_def split: sum.splits)
    then have "e = PanicNewRecord" by (rule NewRecord_error)
    then show ?thesis using assms(2) by (simp add: isPanic_def)
  qed
qed

lemma concatRecords_None: "concatRecords schema records = Inr None \<Longrightarrow> records = []"
  by (auto simp: concatRecords_def split: if_splits sum.splits)

lemma foreign_nil:
  assumes "loadDataFromORCToParquet C src schema = Inr None"
  shows "\<exists>recs allBatches. src = Batches recs \<and>
           mapE (coerceBatch C schema) recs = Inr allBatches \<and> allBatches \<noteq> [] \<and>
           concatRecords schema allBatches = Inl ConcatTypeMismatch"
proof -
  obtain recs allBatches where s: "src = Batches recs"
    and m: "mapE (coerceBatch C schema) recs = Inr allBatches"
    and ne: "allBatches \<noteq> []"
    and c: "(case concatRecords schema allBatches of
               Inl e \<Rightarrow> if isPanic e then Inl e else Inr None
             | Inr result \<Rightarrow> Inr result) = Inr None"
    using assms
    by (auto simp: loadDataFromORCToParquet_def split: parquet_source.splits sum.splits
          if_splits)
  have "concatRecords schema allBatches = Inl ConcatTypeMismatch"
  proof (cases "concatRecords schema allBatches")
    case (Inl e)
    then have "\<not> isPanic e" using c by (auto split: if_splits)
    then show ?thesis using Inl concatRecords_error by blast
  next
    case (Inr r)
    then have "concatRecords schema allBatches = Inr None" using c by simp
    then show ?thesis using concatRecords_None ne by blast
  qed
  then show ?thesis using s m ne by blast
qed

lemma appendBatches_idAge_two:
  "appendBatches idAgeSchema [idAgeBatch [(1, Some 20)], idAgeBatch [(2, None)]]
     = idAgeBatch [(1, Some 20), (2, None)]"
  by (simp add: appendBatches_def idAgeBatch_def idAgeSchema_def upt_rec)

lemma Schema_idAgeBatch: "Schema (idAgeBatch rows) = idAgeSchema"
  by (simp add: idAgeBatch_def)

lemma relabel_idAgeBatch:
  "coerceBatch relabel idAgeSchema ((idAgeBatch rows)\<lparr>Schema := []\<rparr>) = Inr (idAgeBatch rows)"
  by (simp add: coerceBatch_def relabel_def idAgeBatch_def idAgeSchema_def)

lemma foreign_swapped:
  "loadDataFromORCToParquet relabel (Batches [idAgeBatch [(1, Some 20)], swappedBatch])
     idAgeSchema = Inr None"
  by (simp add: loadDataFromORCToParquet_def coerceBatch_def Schema_idAgeBatch swappedBatch_def
      concatRecords_def idAgeSchema_def upt_rec Column_def idAgeBatch_def Concatenate_def
      isPanic_def)

lemma appendValues_Inl:
  "appendValues coerce xs bs = Inl e \<Longrightarrow>
     e = PanicIndexOutOfRange \<or> (\<exists>x\<in>set xs. coerce x = Inl e)"
  by (induction coerce xs bs rule: appendValues.induct) (auto split: sum.splits)

lemma csvValue_error:
  "csvValue L n f v = Inl e \<Longrightarrow> e \<noteq> FieldCountMismatch m a c"
  by (auto simp: csvValue_def timestampEpoch_def
           split: data_type.splits if_splits option.splits sum.splits time_unit.splits)

lemma csv_appendValues_error:
  assumes "appendValues (\<lambda>(field, val). csvValue L n field val) xs bs = Inl e"
  shows "e \<noteq> FieldCountMismatch m a c"
proof -
  have "e = PanicIndexOutOfRange \<or> (\<exists>x\<in>set xs. (\<lambda>(field, val). csvValue L n field val) x = Inl e)"
    using assms by (rule appendValues_Inl)
  then show ?thesis
  proof
    assume "e = PanicIndexOutOfRange"
    then show ?thesis by simp
  next
    assume "\<exists>x\<in>set xs. (\<lambda>(field, val). csvValue L n field val) x = Inl e"
    then obtain f v where "csvValue L n f v = Inl e" by auto
    then show ?thesis by (rule csvValue_error)
  qed
qed

lemma csvRows_no_mismatch:
  "0 < fpr \<Longrightarrow> fpr = length schema \<Longrightarrow>
     csvRows L schema n fpr recs bs \<noteq> Inl (FieldCountMismatch m a c)"
proof (induction recs arbitrary: n bs)
  case Nil
  then show ?case by simp
next
  case (Cons r rest)
  show ?case
  proof (cases "readRecord fpr r")
    case (Pair res fpr')
    show ?thesis
    proof (cases res)
      case None
      then show ?thesis using Pair by simp
    next
      case (Some row)
      then have k: "fpr' = fpr" "length row = fpr"
        using readRecord_Some [of fpr r row fpr'] Pair Cons.prems(1) by simp_all
      show ?thesis
      proof (cases "appendValues (\<lambda>(field, val). csvValue L n field val) (zip schema row) bs")
        case (Inl e)
        then show ?thesis
          using Pair Some k Cons.prems(2) csv_appendValues_error [OF Inl] by simp
      next
        case (Inr bs')
        then show ?thesis
          using Pair Some k Cons.prems Cons.IH [of "n + 1" bs'] by simp
      qed
    qed
  qed
qed

lemma csvRows_mismatch_first:
  assumes "0 < fpr" "csvRows L schema n fpr recs bs = Inl (FieldCountMismatch m a c)"
  shows "m = n \<and> a = length schema \<and> c = fpr \<and> fpr \<noteq> length schema"
proof (cases recs)
  case Nil
  then show ?thesis using assms(2) by simp
next
  case (Cons r rest)
  show ?thesis
  proof (cases "readRecord fpr r")
    case (Pair res fpr')
    show ?thesis
    proof (cases res)
      case None
      then show ?thesis using Pair Cons assms(2) by simp
    next
      case (Some row)
      then have k: "fpr' = fpr" "length row = fpr"
        using readRecord_Some [of fpr r row fpr'] Pair assms(1) by simp_all
      show ?thesis
      proof (cases "fpr = length schema")
        case True
        then show ?thesis
          using csvRows_no_mismatch [OF assms(1) True, of L n recs bs m a c] assms(2) by simp
      next
        case False
        then show ?thesis using Pair Some k Cons assms(2) by simp
      qed
    qed
  qed
qed

lemma loadDataFromFile_mismatch_row2:
  assumes "hdr \<noteq> []"
    "loadDataFromFile L (Some (Rec hdr # recs)) schema = Inl (FieldCountMismatch m a c)"
  shows "m = 2 \<and> a = length schema \<and> c = length hdr \<and> length hdr \<noteq> length schema"
proof (cases "mapE newBuilder schema")
  case (Inl e)
  then obtain f where "newBuilder f = Inl e" using mapE_Inl by blast
  then have "e \<noteq> FieldCountMismatch m a c"
    by (auto simp: newBuilder_def split: data_type.splits)
  then show ?thesis using assms(2) Inl by (simp add: loadDataFromFile_def)
next
  case (Inr bs0)
  have pos: "0 < length hdr" using assms(1) by simp
  show ?thesis
  proof (cases "csvRows L schema 2 (length hdr) recs bs0")
    case (Inl e)
    then have "e = FieldCountMismatch m a c"
      using assms(2) loadDataFromFile_unfold [OF Inr assms(1), of L recs] by simp
    then show ?thesis using csvRows_mismatch_first [OF pos] Inl by blast
  next
    case (Inr bs')
    then have "buildRecord schema bs' = Inl (FieldCountMismatch m a c)"
      using assms(2) loadDataFromFile_unfold [OF \<open>mapE newBuilder schema = Inr bs0\<close> assms(1), of L recs]
      by simp
    then show ?thesis
      by (auto simp: buildRecord_def Let_def split: list.splits dest: NewRecord_error)
  qed
qed

lemma csvRows_own_check:
  "readRecord fpr x = (Some row, fpr') \<Longrightarrow> length row \<noteq> length schema \<Longrightarrow>
     csvRows L schema n fpr (x # rest) bs
       = Inl (FieldCountMismatch n (length schema) (length row))"
  by simp

lemma loadDataFromFile_idAge_three:
  "loadDataFromFile L (Some [Rec [''id'', ''age''], Rec [''1'', ''20'', ''30'']]) idAgeSchema
     = Inl (RowReadError 2)"
  by (simp add: loadDataFromFile_def idAgeSchema_def newBuilder_def readRecord_def)



section \<open>The claims\<close>

text \<open>
  C1. For every schema and every adapter (sample-data generator, textual-row, keyed-object,
  blob, foreign-batch): when the adapter returns a batch, the batch has as many columns as
  the schema has fields, and column \<open>i\<close> has the type of field \<open>i\<close>. The generator and
  the blob adapter build a string column for a field of a type they have no case for;
  \<open>NewRecord\<close> then panics, so no batch with a mismatched column is ever returned: the
  generator returns a batch exactly for the schemas whose fields are all Int64, Int32,
  String or Float64. The foreign-batch adapter does return a batch: when the batches it
  has after coercion are at least one and conform to the schema (in particular when the
  source's batches carry the target schema and conform to it), the result is their
  concatenation. Its one other result without an error is a nil record, which it returns
  only when concatenation fails on columns of differing types, so never for conforming
  batches.
\<close>

theorem C1_columns_match_schema:
  assumes "generateSampleData schema = Inr b \<or>
           loadDataFromFile L csv schema = Inr b \<or>
           loadDataFromJSON L js schema = Inr b \<or>
           loadBlobRecord L blobs schema = Inr b \<or>
           loadDataFromORCToParquet CoerceRecord src schema = Inr (Some b)"
  shows "length (Columns b) = length schema \<and>
         (\<forall>i<length schema. DataType (Columns b ! i) = Type (schema ! i)) \<and>
         (\<exists>b'. generateSampleData schema' = Inr b') = list_all sampleType schema' \<and>
         (mapE (coerceBatch CoerceRecord' schema') recs = Inr allBatches \<and> allBatches \<noteq> [] \<and>
          list_all (conforms schema') allBatches
            \<longrightarrow> loadDataFromORCToParquet CoerceRecord' (Batches recs) schema'
                  = Inr (Some (appendBatches schema' allBatches))) \<and>
         (recs \<noteq> [] \<and> list_all (\<lambda>r. Schema r = schema') recs \<and>
          list_all (conforms schema') recs
            \<longrightarrow> loadDataFromORCToParquet CoerceRecord' (Batches recs) schema'
                  = Inr (Some (appendBatches schema' recs))) \<and>
         (loadDataFromORCToParquet CoerceRecord' src' schema' = Inr None
            \<longrightarrow> (\<exists>recs' bs. src' = Batches recs' \<and>
                   mapE (coerceBatch CoerceRecord' schema') recs' = Inr bs \<and> bs \<noteq> [] \<and>
                   concatRecords schema' bs = Inl ConcatTypeMismatch \<and>
                   \<not> list_all (conforms schema') bs))"
proof -
  have shape: "length (Columns b) = length schema \<and>
         (\<forall>i<length schema. DataType (Columns b ! i) = Type (schema ! i))"
    using assms generateSampleData_types loadDataFromFile_types loadDataFromJSON_types
      loadBlobRecord_types loadDataFromORCToParquet_types
    by blast
  have gen: "(\<exists>b'. generateSampleData schema' = Inr b') = list_all sampleType schema'"
    by (rule generateSampleData_total)
  have coerced: "mapE (coerceBatch CoerceRecord' schema') recs = Inr allBatches \<and>
          allBatches \<noteq> [] \<and> list_all (conforms schema') allBatches
            \<longrightarrow> loadDataFromORCToParquet CoerceRecord' (Batches recs) schema'
                  = Inr (Some (appendBatches schema' allBatches))"
    using foreign_conforming by blast
  have same: "recs \<noteq> [] \<and> list_all (\<lambda>r. Schema r = schema') recs \<and>
          list_all (conforms schema') recs
            \<longrightarrow> loadDataFromORCToParquet CoerceRecord' (Batches recs) schema'
                  = Inr (Some (appendBatches schema' recs))"
    using foreign_conforming [of CoerceRecord' schema' recs recs]
      coerceBatch_same [of schema' recs CoerceRecord']
    by blast
  have nil: "loadDataFromORCToParquet CoerceRecord' src' schema' = Inr None
            \<longrightarrow> (\<exists>recs' bs. src' = Batches recs' \<and>
                   mapE (coerceBatch CoerceRecord' schema') recs' = Inr bs \<and> bs \<noteq> [] \<and>
                   concatRecords schema' bs = Inl ConcatTypeMismatch \<and>
                   \<not> list_all (conforms schema') bs)"
  proof
    assume "loadDataFromORCToParquet CoerceRecord' src' schema' = Inr None"
    then obtain recs' bs where r: "src' = Batches recs'"
      "mapE (coerceBatch CoerceRecord' schema') recs' = Inr bs" "bs \<noteq> []"
      "concatRecords schema' bs = Inl ConcatTypeMismatch"
      using foreign_nil by blast
    have "\<not> list_all (conforms schema') bs"
      using concatRecords_conforming [OF r(3), of schema'] r(4) by auto
    then show "\<exists>recs' bs. src' = Batches recs' \<and>
                   mapE (coerceBatch CoerceRecord' schema') recs' = Inr bs \<and> bs \<noteq> [] \<and>
                   concatRecords schema' bs = Inl ConcatTypeMismatch \<and>
                   \<not> list_all (conforms schema') bs"
      using r by blast
  qed
  show ?thesis by (intro conjI shape [THEN conjunct1] shape [THEN conjunct2] gen coerced same nil)
qed

theorem C1_witness:
  "generateSampleData idAgeSchema =
     Inr \<lparr>Schema = idAgeSchema,
          Columns = [int64Column [1, 2, 3, 4, 5], int32Column [20, 21, 22, 23, 24]],
          NumRows = 5\<rparr> \<and>
   map DataType [int64Column [1, 2, 3, 4, 5], int32Column [20, 21, 22, 23, 24]]
     = map Type idAgeSchema \<and>
   loadDataFromFile exampleLib (Some [Rec [''id'', ''age''], Rec [''1'', ''20'']]) idAgeSchema
     = Inr (idAgeBatch [(1, Some 20)]) \<and>
   map DataType (Columns (idAgeBatch [(1, Some 20)])) = map Type idAgeSchema \<and>
   loadDataFromORCToParquet relabel
     (Batches [idAgeBatch [(1, Some 20)], (idAgeBatch [(2, None)])\<lparr>Schema := []\<rparr>]) idAgeSchema
     = Inr (Some (idAgeBatch [(1, Some 20), (2, None)])) \<and>
   map DataType (Columns (idAgeBatch [(1, Some 20), (2, None)])) = map Type idAgeSchema \<and>
   loadDataFromORCToParquet relabel (Batches [idAgeBatch [(1, Some 20)], swappedBatch])
     idAgeSchema = Inr None \<and>
   \<not> conforms idAgeSchema swappedBatch"
proof -
  let ?b = "\<lparr>Schema = idAgeSchema,
          Columns = [int64Column [1, 2, 3, 4, 5], int32Column [20, 21, 22, 23, 24]],
          NumRows = 5\<rparr>"
  let ?csv = "Some [Rec [''id'', ''age''], Rec [''1'', ''20'']]"
  let ?recs = "[idAgeBatch [(1, Some 20)], (idAgeBatch [(2, None)])\<lparr>Schema := []\<rparr>]"
  let ?all = "[idAgeBatch [(1, Some 20)], idAgeBatch [(2, None)]]"
  let ?r = "idAgeBatch [(1, Some 20), (2, None)]"
  have g: "generateSampleData idAgeSchema = Inr ?b" by (rule generateSampleData_idAge)
  have "length (Columns ?b) = length idAgeSchema \<and>
         (\<forall>i<length idAgeSchema. DataType (Columns ?b ! i) = Type (idAgeSchema ! i))"
    using C1_columns_match_schema [where L = exampleLib and csv = None and js = None
          and blobs = Map.empty and src = OpenFails and CoerceRecord = relabel
          and schema = idAgeSchema and b = ?b] g
    by blast
  then have "map DataType (Columns ?b) = map Type idAgeSchema"
    by (rule types_map)
  then have 1: "map DataType [int64Column [1, 2, 3, 4, 5], int32Column [20, 21, 22, 23, 24]]
     = map Type idAgeSchema"
    by simp
  have c: "loadDataFromFile exampleLib ?csv idAgeSchema = Inr (idAgeBatch [(1, Some 20)])"
    by (rule loadDataFromFile_idAge)
  have "length (Columns (idAgeBatch [(1, Some 20)])) = length idAgeSchema \<and>
         (\<forall>i<length idAgeSchema.
            DataType (Columns (idAgeBatch [(1, Some 20)]) ! i) = Type (idAgeSchema ! i))"
    using C1_columns_match_schema [where L = exampleLib and csv = ?csv and js = None
          and blobs = Map.empty and src = OpenFails and CoerceRecord = relabel
          and schema = idAgeSchema and b = "idAgeBatch [(1, Some 20)]"] c
    by blast
  then have 2: "map DataType (Columns (idAgeBatch [(1, Some 20)])) = map Type idAgeSchema"
    by (rule types_map)
  have m: "mapE (coerceBatch relabel idAgeSchema) ?recs = Inr ?all"
    using relabel_idAgeBatch [of "[(2, None)]"]
    by (simp add: coerceBatch_def Schema_idAgeBatch)
  have cf: "list_all (conforms idAgeSchema) ?all"
    by (simp add: conforms_idAgeBatch)
  have "loadDataFromORCToParquet relabel (Batches ?recs) idAgeSchema
          = Inr (Some (appendBatches idAgeSchema ?all))"
    using C1_columns_match_schema [where L = exampleLib and csv = None and js = None
          and blobs = Map.empty and src = OpenFails and CoerceRecord = relabel
          and schema = idAgeSchema and b = ?b and CoerceRecord' = relabel
          and schema' = idAgeSchema and recs = ?recs and allBatches = ?all] g m cf
    by blast
  then have f: "loadDataFromORCToParquet relabel (Batches ?recs) idAgeSchema = Inr (Some ?r)"
    by (simp add: appendBatches_idAge_two)
  have "length (Columns ?r) = length idAgeSchema \<and>
         (\<forall>i<length idAgeSchema. DataType (Columns ?r ! i) = Type (idAgeSchema ! i))"
    using C1_columns_match_schema [where L = exampleLib and csv = None and js = None
          and blobs = Map.empty and src = "Batches ?recs" and CoerceRecord = relabel
          and schema = idAgeSchema and b = ?r] f
    by blast
  then have 3: "map DataType (Columns ?r) = map Type idAgeSchema"
    by (rule types_map)
  have n: "loadDataFromORCToParquet relabel (Batches [idAgeBatch [(1, Some 20)], swappedBatch])
     idAgeSchema = Inr None"
    by (rule foreign_swapped)
  have s: "\<not> conforms idAgeSchema swappedBatch"
    by (simp add: conforms_def swappedBatch_def idAgeSchema_def)
  show ?thesis by (intro conjI g 1 c 2 f 3 n s)
qed




text \<open>
  C3, as amended. Timestamp coercion accepts only a string that \<open>time.Parse\<close> accepts in
  the RFC 3339 layout (a date-time with offset): any other JSON value fails with
  "invalid timestamp type" and an unparsable string with "invalid timestamp". The parsed
  instant is projected to the field's unit by dropping the part below the unit, which is
  the floor of the instant in that unit (for an instant before 1970 that is not a whole
  number of units this is the earlier unit, not the one nearer to zero). The stored 64-bit
  value is that number provided it fits a signed 64-bit integer. It fits in the second,
  millisecond and microsecond units for every instant of the years 0000 to 9999; in the
  nanosecond unit it fits only between the years 1678 and 2262, and outside of that the
  nanosecond count wraps around. The timestamp
  \<open>2024-01-01T00:00:01Z\<close> yields \<open>1704067201000000\<close> in a microsecond field and
  \<open>1704067201\<close> in a second field.
\<close>

theorem C3_timestamp_projection:
  assumes "time_Parse L s = Some tm" "s \<noteq> []" "nsec tm < 1000000000"
    and "Type f = TTimestamp u"
    and "u = Second \<or> u = Millisecond \<or> u = Microsecond \<or> u = Nanosecond"
    and "- (2 ^ 63) \<le> unixNanos tm div nanosPerUnit u"
    and "unixNanos tm div nanosPerUnit u < 2 ^ 63"
  shows "(\<exists>w. csvValue L rowNum f s = Inr (Some (VTimestamp w)) \<and>
              jsonTyped L rowNum f (JString s) = Inr (Some (VTimestamp w)) \<and>
              sint w = unixNanos tm div nanosPerUnit u) \<and>
         ((\<forall>x. val \<noteq> JString x)
            \<longrightarrow> jsonTyped L rowNum f val = Inl (InvalidTimestampType (rowNum + 1) (Name f) val)) \<and>
         (time_Parse L s' = None \<and> s' \<noteq> []
            \<longrightarrow> csvValue L rowNum f s' = Inl (InvalidTimestamp rowNum (Name f) s') \<and>
                jsonTyped L rowNum f (JString s')
                  = Inl (InvalidTimestamp (rowNum + 1) (Name f) s')) \<and>
         (- 62167305600 \<le> unixSec tm' \<and> unixSec tm' \<le> 253402387199 \<and>
          nsec tm' < 1000000000 \<and> (u' = Second \<or> u' = Millisecond \<or> u' = Microsecond)
            \<longrightarrow> - (2 ^ 63) \<le> unixNanos tm' div nanosPerUnit u' \<and>
                unixNanos tm' div nanosPerUnit u' < 2 ^ 63) \<and>
         csvValue exampleLib rowNum (tsField Microsecond) ''2024-01-01T00:00:01Z''
           = Inr (Some (VTimestamp 1704067201000000)) \<and>
         csvValue exampleLib rowNum (tsField Second) ''2024-01-01T00:00:01Z''
           = Inr (Some (VTimestamp 1704067201)) \<and>
         jsonTyped exampleLib rowNum (tsField Microsecond) (JString ''2024-01-01T00:00:01Z'')
           = Inr (Some (VTimestamp 1704067201000000)) \<and>
         jsonTyped exampleLib rowNum (tsField Second) (JString ''2024-01-01T00:00:01Z'')
           = Inr (Some (VTimestamp 1704067201))"
proof -
  have fit: "- 62167305600 \<le> unixSec tm' \<and> unixSec tm' \<le> 253402387199 \<and>
          nsec tm' < 1000000000 \<and> (u' = Second \<or> u' = Millisecond \<or> u' = Microsecond)
            \<longrightarrow> - (2 ^ 63) \<le> unixNanos tm' div nanosPerUnit u' \<and>
                unixNanos tm' div nanosPerUnit u' < 2 ^ 63"
    using small_units_fit [of tm' u'] by blast
  let ?w = "word_of_int (unixNanos tm div nanosPerUnit u) :: 64 word"
  have "sint ?w = unixNanos tm div nanosPerUnit u"
    using assms(6,7) by (rule sint_word64)
  then have first: "\<exists>w. csvValue L rowNum f s = Inr (Some (VTimestamp w)) \<and>
              jsonTyped L rowNum f (JString s) = Inr (Some (VTimestamp w)) \<and>
              sint w = unixNanos tm div nanosPerUnit u"
    using timestamp_accepted [OF assms(1,2,4,5,3), of rowNum] by blast
  note r = timestamp_rejected [OF assms(4), of val L rowNum s']
  have e1: "csvValue exampleLib rowNum (tsField Microsecond) ''2024-01-01T00:00:01Z''
           = Inr (Some (VTimestamp 1704067201000000)) \<and>
         jsonTyped exampleLib rowNum (tsField Microsecond) (JString ''2024-01-01T00:00:01Z'')
           = Inr (Some (VTimestamp 1704067201000000))"
    using timestamp_accepted [OF parse_2024, of "tsField Microsecond" Microsecond rowNum]
    by (simp add: tsField_def unixNanos_def nanosPerUnit_def)
  have e2: "csvValue exampleLib rowNum (tsField Second) ''2024-01-01T00:00:01Z''
           = Inr (Some (VTimestamp 1704067201)) \<and>
         jsonTyped exampleLib rowNum (tsField Second) (JString ''2024-01-01T00:00:01Z'')
           = Inr (Some (VTimestamp 1704067201))"
    using timestamp_accepted [OF parse_2024, of "tsField Second" Second rowNum]
    by (simp add: tsField_def unixNanos_def nanosPerUnit_def)
  show ?thesis
    by (intro conjI first r [THEN conjunct1] r [THEN conjunct2] fit
        e1 [THEN conjunct1] e1 [THEN conjunct2] e2 [THEN conjunct1] e2 [THEN conjunct2])
qed

theorem C3_witness:
  "time_Parse exampleLib ''1969-12-31T23:59:59.5Z''
     = Some \<lparr>unixSec = - 1, nsec = 500000000\<rparr> \<and>
   unixNanos \<lparr>unixSec = - 1, nsec = 500000000\<rparr> div nanosPerUnit Millisecond = - 500 \<and>
   unixNanos \<lparr>unixSec = - 1, nsec = 500000000\<rparr> div nanosPerUnit Second = - 1 \<and>
   (\<exists>w. csvValue exampleLib 2 (tsField Millisecond) ''1969-12-31T23:59:59.5Z''
           = Inr (Some (VTimestamp w)) \<and>
         jsonTyped exampleLib 2 (tsField Millisecond) (JString ''1969-12-31T23:59:59.5Z'')
           = Inr (Some (VTimestamp w)) \<and>
         sint w = - 500) \<and>
   (\<exists>w. csvValue exampleLib 2 (tsField Second) ''1969-12-31T23:59:59.5Z''
           = Inr (Some (VTimestamp w)) \<and>
         jsonTyped exampleLib 2 (tsField Second) (JString ''1969-12-31T23:59:59.5Z'')
           = Inr (Some (VTimestamp w)) \<and>
         sint w = - 1)"
proof -
  let ?tm = "\<lparr>unixSec = - 1, nsec = 500000000\<rparr>"
  have ms: "unixNanos ?tm div nanosPerUnit Millisecond = - 500"
    and sc: "unixNanos ?tm div nanosPerUnit Second = - 1"
    by (simp_all add: unixNanos_def nanosPerUnit_def)
  have ne: "''1969-12-31T23:59:59.5Z'' \<noteq> []" and ns: "nsec ?tm < 1000000000"
    by simp_all
  have ty: "Type (tsField u) = TTimestamp u" for u
    by (simp add: tsField_def)
  have "\<exists>w. csvValue exampleLib 2 (tsField Millisecond) ''1969-12-31T23:59:59.5Z''
           = Inr (Some (VTimestamp w)) \<and>
         jsonTyped exampleLib 2 (tsField Millisecond) (JString ''1969-12-31T23:59:59.5Z'')
           = Inr (Some (VTimestamp w)) \<and>
         sint w = unixNanos ?tm div nanosPerUnit Millisecond"
    by (rule C3_timestamp_projection [OF parse_1969 ne ns ty, THEN conjunct1])
       (simp_all add: ms)
  then have w1: "\<exists>w. csvValue exampleLib 2 (tsField Millisecond) ''1969-12-31T23:59:59.5Z''
           = Inr (Some (VTimestamp w)) \<and>
         jsonTyped exampleLib 2 (tsField Millisecond) (JString ''1969-12-31T23:59:59.5Z'')
           = Inr (Some (VTimestamp w)) \<and>
         sint w = - 500"
    unfolding ms .
  have "\<exists>w. csvValue exampleLib 2 (tsField Second) ''1969-12-31T23:59:59.5Z''
           = Inr (Some (VTimestamp w)) \<and>
         jsonTyped exampleLib 2 (tsField Second) (JString ''1969-12-31T23:59:59.5Z'')
           = Inr (Some (VTimestamp w)) \<and>
         sint w = unixNanos ?tm div nanosPerUnit Second"
    by (rule C3_timestamp_projection [OF parse_1969 ne ns ty, THEN conjunct1])
       (simp_all add: sc)
  then have w2: "\<exists>w. csvValue exampleLib 2 (tsField Second) ''1969-12-31T23:59:59.5Z''
           = Inr (Some (VTimestamp w)) \<and>
         jsonTyped exampleLib 2 (tsField Second) (JString ''1969-12-31T23:59:59.5Z'')
           = Inr (Some (VTimestamp w)) \<and>
         sint w = - 1"
    unfolding sc .
  show ?thesis by (intro conjI parse_1969 ms sc w1 w2)
qed

text \<open>
  The statement without the amendment fails in a nanosecond field: \<open>2300-01-01T00:00:00Z\<close>
  is accepted, its instant is \<open>10413792000000000000\<close> nanoseconds after the epoch, and the
  value stored is \<open>-8032952073709551616\<close>.
\<close>

theorem C3_counterexample:
  "time_Parse exampleLib ''2300-01-01T00:00:00Z'' = Some \<lparr>unixSec = 10413792000, nsec = 0\<rparr> \<and>
   unixNanos \<lparr>unixSec = 10413792000, nsec = 0\<rparr> div nanosPerUnit Nanosecond
     = 10413792000000000000 \<and>
   csvValue exampleLib 2 (tsField Nanosecond) ''2300-01-01T00:00:00Z''
     = Inr (Some (VTimestamp (- 8032952073709551616))) \<and>
   sint (- 8032952073709551616 :: 64 word) = - 8032952073709551616"
proof -
  have w: "(word_of_int 10413792000000000000 :: 64 word) = - 8032952073709551616"
    by simp
  have "csvValue exampleLib 2 (tsField Nanosecond) ''2300-01-01T00:00:00Z''
     = Inr (Some (VTimestamp (word_of_int 10413792000000000000)))"
    using parse_2300
    by (simp add: csvValue_def tsField_def timestampEpoch_def UnixNano_def)
  then have c: "csvValue exampleLib 2 (tsField Nanosecond) ''2300-01-01T00:00:00Z''
     = Inr (Some (VTimestamp (- 8032952073709551616)))"
    using w by simp
  have n: "unixNanos \<lparr>unixSec = 10413792000, nsec = 0\<rparr> div nanosPerUnit Nanosecond
     = 10413792000000000000"
    by (simp add: unixNanos_def nanosPerUnit_def)
  have s: "sint (- 8032952073709551616 :: 64 word) = - 8032952073709551616"
    by simp
  show ?thesis by (intro conjI parse_2300 n c s)
qed

text \<open>
  C4. Every batch the blob adapter returns has exactly one row and one slot per column.
  The slot of a field whose name is in the mapping holds the full content of the mapped
  file: as bytes for a Binary or LargeBinary field, as a string for a String field. The
  slot of a field that is not in the mapping is null, whether or not the field is
  nullable. The adapter returns such a batch whenever every field is Binary,
  LargeBinary or String and every mapped file can be read.
\<close>

theorem C4_blob_one_row:
  assumes "loadBlobRecord L blobs schema = Inr b"
  shows "NumRows b = 1 \<and> length (Columns b) = length schema \<and>
         (\<forall>i<length schema.
            (blobs (Name (schema ! i)) = None \<longrightarrow> vals (Columns b ! i) = [None]) \<and>
            (\<forall>path. blobs (Name (schema ! i)) = Some path \<longrightarrow>
               (\<exists>data. ReadFile L path = Some data \<and>
                  vals (Columns b ! i) =
                    [Some (if Type (schema ! i) = TString then VString data
                           else VBinary data)]))) \<and>
         list_all blobType schema \<and>
         (list_all blobType schema' \<and> list_all (readable L blobs) schema'
            \<longrightarrow> (\<exists>b'. loadBlobRecord L blobs schema' = Inr b'))"
proof -
  obtain bs' where rec: "NewRecord schema (map NewArray bs') 1 = Inr b"
    using assms by (auto simp: loadBlobRecord_def Let_def split: sum.splits)
  have "NumRows b = 1" using NewRecord_rows [OF rec] by simp
  moreover have "length (Columns b) = length schema"
    using loadBlobRecord_types [OF assms] by simp
  moreover have "list_all blobType schema"
    using loadBlobRecord_column [OF assms] by (simp add: list_all_length)
  ultimately show ?thesis
    using loadBlobRecord_column [OF assms] loadBlobRecord_total [of schema' L blobs]
    by blast
qed

theorem C4_witness:
  "loadBlobRecord exampleLib [''photo'' \<mapsto> ''/tmp/a.bin''] photoSchema =
     Inr \<lparr>Schema = photoSchema,
          Columns = [\<lparr>DataType = TBinary, vals = [Some (VBinary ''PNG'')]\<rparr>,
                     \<lparr>DataType = TString, vals = [None]\<rparr>],
          NumRows = 1\<rparr> \<and>
   loadBlobRecord exampleLib Map.empty docSchema =
     Inr \<lparr>Schema = docSchema,
          Columns = [\<lparr>DataType = TLargeBinary, vals = [None]\<rparr>],
          NumRows = 1\<rparr>"
proof -
  have t: "list_all blobType photoSchema \<and>
           list_all (readable exampleLib [''photo'' \<mapsto> ''/tmp/a.bin'']) photoSchema"
    by (simp add: photoSchema_def blobType_def readable_def exampleLib_def)
  have e: "loadBlobRecord exampleLib [''photo'' \<mapsto> ''/tmp/a.bin''] photoSchema =
     Inr \<lparr>Schema = photoSchema,
          Columns = [\<lparr>DataType = TBinary, vals = [Some (VBinary ''PNG'')]\<rparr>,
                     \<lparr>DataType = TString, vals = [None]\<rparr>],
          NumRows = 1\<rparr>"
    by (simp add: loadBlobRecord_def photoSchema_def blobBuilder_def NewBuilder_def
        blobValue_def exampleLib_def Append_def NewArray_def NewRecord_def validate_def
        Len_def)
  have d: "loadBlobRecord exampleLib Map.empty docSchema =
     Inr \<lparr>Schema = docSchema,
          Columns = [\<lparr>DataType = TLargeBinary, vals = [None]\<rparr>],
          NumRows = 1\<rparr>"
    by (simp add: loadBlobRecord_def docSchema_def blobBuilder_def NewBuilder_def
        blobValue_def exampleLib_def Append_def NewArray_def NewRecord_def validate_def
        Len_def)
  show ?thesis
    using e d t C4_blob_one_row [OF e, of photoSchema] by simp
qed

text \<open>
  C5. Batch concatenation appends and is associative. For batches that conform to the
  schema (one column per field, of the field's type and at least as long as the row
  count), \<open>concatRecords\<close> returns a batch whose column \<open>i\<close> is the columns \<open>i\<close> of the
  inputs appended in input order, null slots included, and whose row count is the sum
  of the inputs' row counts. Hence concatenating the result of \<open>[A, B, C]\<close> with \<open>D\<close>
  equals concatenating \<open>A\<close> with the result of \<open>[B, C, D]\<close>, and both equal the
  concatenation of \<open>[A, B, C, D]\<close>.
\<close>

theorem C5_concat_associative:
  assumes "records \<noteq> []" "list_all (conforms schema) records"
    and "list_all (conforms schema) [A, B, C, D]"
  shows "(\<exists>rec. concatRecords schema records = Inr (Some rec) \<and>
            Schema rec = schema \<and>
            NumRows rec = sum_list (map NumRows records) \<and>
            length (Columns rec) = length schema \<and>
            (\<forall>i<length schema.
               vals (Columns rec ! i) = concat (map (\<lambda>b. vals (Columns b ! i)) records))) \<and>
         (\<exists>ABC BCD.
            concatRecords schema [A, B, C] = Inr (Some ABC) \<and>
            concatRecords schema [B, C, D] = Inr (Some BCD) \<and>
            concatRecords schema [ABC, D] = concatRecords schema [A, BCD] \<and>
            concatRecords schema [ABC, D] = concatRecords schema [A, B, C, D] \<and>
            concatRecords schema [A, B, C, D] = Inr (Some (appendBatches schema [A, B, C, D])))"
proof -
  have "concatRecords schema records = Inr (Some (appendBatches schema records))"
    using assms(1,2) by (rule concatRecords_conforming)
  moreover have "Schema (appendBatches schema records) = schema"
    "NumRows (appendBatches schema records) = sum_list (map NumRows records)"
    "length (Columns (appendBatches schema records)) = length schema"
    by (simp_all add: appendBatches_def)
  ultimately have first: "\<exists>rec. concatRecords schema records = Inr (Some rec) \<and>
            Schema rec = schema \<and>
            NumRows rec = sum_list (map NumRows records) \<and>
            length (Columns rec) = length schema \<and>
            (\<forall>i<length schema.
               vals (Columns rec ! i) = concat (map (\<lambda>b. vals (Columns b ! i)) records))"
    using appendBatches_vals [of _ schema records] by blast
  have abc: "concatRecords schema [A, B, C] = Inr (Some (appendBatches schema [A, B, C]))"
    using assms(3) by (intro concatRecords_conforming) simp_all
  have bcd: "concatRecords schema [B, C, D] = Inr (Some (appendBatches schema [B, C, D]))"
    using assms(3) by (intro concatRecords_conforming) simp_all
  have abcd: "concatRecords schema [A, B, C, D] = Inr (Some (appendBatches schema [A, B, C, D]))"
    using assms(3) by (intro concatRecords_conforming) simp_all
  have c1: "conforms schema (appendBatches schema [A, B, C])"
    using assms(3) by (intro conforms_appendBatches) simp
  have c2: "conforms schema (appendBatches schema [B, C, D])"
    using assms(3) by (intro conforms_appendBatches) simp
  have l: "concatRecords schema [appendBatches schema [A, B, C], D]
             = Inr (Some (appendBatches schema [A, B, C, D]))"
    using assms(3) c1 appendBatches_flatten_left [of schema "[A, B, C]" "[D]"]
    by (simp add: concatRecords_conforming)
  have r: "concatRecords schema [A, appendBatches schema [B, C, D]]
             = Inr (Some (appendBatches schema [A, B, C, D]))"
    using assms(3) c2 appendBatches_flatten_right [of schema "[A]" "[B, C, D]"]
    by (simp add: concatRecords_conforming)
  show ?thesis using first abc bcd abcd l r by simp
qed

theorem C5_witness:
  "list_all (conforms idAgeSchema)
     [idAgeBatch [(1, Some 20)], idAgeBatch [(2, None), (3, Some 22)],
      idAgeBatch [], idAgeBatch [(4, None)]] \<and>
   (\<exists>ABC BCD.
      concatRecords idAgeSchema
        [idAgeBatch [(1, Some 20)], idAgeBatch [(2, None), (3, Some 22)], idAgeBatch []]
        = Inr (Some ABC) \<and>
      concatRecords idAgeSchema
        [idAgeBatch [(2, None), (3, Some 22)], idAgeBatch [], idAgeBatch [(4, None)]]
        = Inr (Some BCD) \<and>
      concatRecords idAgeSchema [ABC, idAgeBatch [(4, None)]]
        = concatRecords idAgeSchema [idAgeBatch [(1, Some 20)], BCD] \<and>
      concatRecords idAgeSchema [ABC, idAgeBatch [(4, None)]]
        = Inr (Some (idAgeBatch [(1, Some 20), (2, None), (3, Some 22), (4, None)])))"
proof -
  let ?A = "idAgeBatch [(1, Some 20)]" and ?B = "idAgeBatch [(2, None), (3, Some 22)]"
  let ?C = "idAgeBatch []" and ?D = "idAgeBatch [(4, None)]"
  have h: "list_all (conforms idAgeSchema) [?A, ?B, ?C, ?D]"
    by (simp add: conforms_idAgeBatch)
  have e: "appendBatches idAgeSchema [?A, ?B, ?C, ?D]
             = idAgeBatch [(1, Some 20), (2, None), (3, Some 22), (4, None)]"
    by (simp add: appendBatches_def idAgeBatch_def idAgeSchema_def upt_rec)
  show ?thesis
    using h e C5_concat_associative [of "[?A]" idAgeSchema ?A ?B ?C ?D]
    by (auto simp: conforms_idAgeBatch)
qed

text \<open>
  C6. The textual-row adapter checks every row it gets from the CSV reader against the
  schema's field count and fails with "row N: expected E fields, got A" (\<open>N\<close> counts the
  header as row 1), as the claim says. The code breaks the claim before that check: the
  reader is created with its default \<open>FieldsPerRecord = 0\<close>, so it takes the column
  count of the header as the count every later row must have and returns its own error
  for any other row, which the code reports as "error reading row N" without the
  counts. After a header \<open>hdr\<close> and data rows that load, a row with another count than
  the schema's therefore gets the message with the counts only if it has as many columns
  as the header; the run fails either way. With the header \<open>id,age\<close> the row \<open>1,20,30\<close>
  against the two-field schema fails with "error reading row 2", and with any
  non-empty header the message with the counts can only ever name row 2.
\<close>

theorem C6_field_count_mismatch:
  assumes "mapE newBuilder schema = Inr bs0" "hdr \<noteq> []"
    and "csvRows L schema 2 (length hdr) good bs0 = Inr bs1"
    and "length row \<noteq> length schema"
  shows "loadDataFromFile L (Some (Rec hdr # good @ Rec row # rest)) schema =
           Inl (if length row = length hdr
                then FieldCountMismatch (2 + length good) (length schema) (length row)
                else RowReadError (2 + length good)) \<and>
         (Rec r \<in> set recs \<and> length r \<noteq> length schema'
            \<longrightarrow> (\<exists>e. loadDataFromFile L' (Some (h # recs)) schema' = Inl e)) \<and>
         loadDataFromFile L' (Some [Rec [''a'', ''b'', ''c''], Rec [''1'', ''20'', ''30'']])
           idAgeSchema = Inl (FieldCountMismatch 2 2 3) \<and>
         (readRecord fpr x = (Some row', fpr') \<and> length row' \<noteq> length schema'
            \<longrightarrow> csvRows L' schema' n fpr (x # rest') bs
                  = Inl (FieldCountMismatch n (length schema') (length row'))) \<and>
         loadDataFromFile L' (Some [Rec [''id'', ''age''], Rec [''1'', ''20'', ''30'']])
           idAgeSchema = Inl (RowReadError 2) \<and>
         (hdr' \<noteq> [] \<and>
          loadDataFromFile L' (Some (Rec hdr' # recs')) schema' = Inl (FieldCountMismatch m a c)
            \<longrightarrow> m = 2 \<and> a = length schema' \<and> c = length hdr' \<and>
                length hdr' \<noteq> length schema')"
proof -
  have pos: "0 < length hdr" using assms(2) by simp
  have "loadDataFromFile L (Some (Rec hdr # good @ Rec row # rest)) schema =
          (case csvRows L schema (2 + length good) (length hdr) (Rec row # rest) bs1 of
             Inl e \<Rightarrow> Inl e
           | Inr bs' \<Rightarrow> buildRecord schema bs')"
    using loadDataFromFile_unfold [OF assms(1,2), of L "good @ Rec row # rest"]
      csvRows_append [OF pos, of L schema 2 good "Rec row # rest" bs0] assms(3)
    by simp
  then have first: "loadDataFromFile L (Some (Rec hdr # good @ Rec row # rest)) schema =
           Inl (if length row = length hdr
                then FieldCountMismatch (2 + length good) (length schema) (length row)
                else RowReadError (2 + length good))"
    using csvRows_bad_row [OF pos assms(4), of L "2 + length good" rest bs1] by simp
  have second: "\<exists>e. loadDataFromFile L' (Some (h # recs)) schema' = Inl e"
    if "Rec r \<in> set recs" "length r \<noteq> length schema'"
  proof (rule not_Inr_Inl)
    fix b
    show "loadDataFromFile L' (Some (h # recs)) schema' \<noteq> Inr b"
    proof
      assume "loadDataFromFile L' (Some (h # recs)) schema' = Inr b"
      then obtain rows where "recs = map Rec rows"
        "\<forall>row\<in>set rows. length row = length schema'"
        using loadDataFromFile_Inr_rows by blast
      then show False using that by auto
    qed
  qed
  have third: "loadDataFromFile L' (Some [Rec [''a'', ''b'', ''c''], Rec [''1'', ''20'', ''30'']])
           idAgeSchema = Inl (FieldCountMismatch 2 2 3)"
    by (simp add: loadDataFromFile_def idAgeSchema_def newBuilder_def readRecord_def)
  have second': "Rec r \<in> set recs \<and> length r \<noteq> length schema'
            \<longrightarrow> (\<exists>e. loadDataFromFile L' (Some (h # recs)) schema' = Inl e)"
    using second by blast
  have own: "readRecord fpr x = (Some row', fpr') \<and> length row' \<noteq> length schema'
            \<longrightarrow> csvRows L' schema' n fpr (x # rest') bs
                  = Inl (FieldCountMismatch n (length schema') (length row'))"
    using csvRows_own_check [of fpr x row' fpr' schema' L' n rest' bs] by blast
  have failing: "loadDataFromFile L' (Some [Rec [''id'', ''age''], Rec [''1'', ''20'', ''30'']])
           idAgeSchema = Inl (RowReadError 2)"
    by (rule loadDataFromFile_idAge_three)
  have row2: "hdr' \<noteq> [] \<and>
          loadDataFromFile L' (Some (Rec hdr' # recs')) schema' = Inl (FieldCountMismatch m a c)
            \<longrightarrow> m = 2 \<and> a = length schema' \<and> c = length hdr' \<and>
                length hdr' \<noteq> length schema'"
    using loadDataFromFile_mismatch_row2 [of hdr' L' recs' schema' m a c] by blast
  show ?thesis by (intro conjI first second' third own failing row2)
qed

theorem C6_witness:
  "mapE newBuilder idAgeSchema = Inr [NewBuilder TInt64, NewBuilder TInt32] \<and>
   csvRows exampleLib idAgeSchema 2 3 [] [NewBuilder TInt64, NewBuilder TInt32]
     = Inr [NewBuilder TInt64, NewBuilder TInt32] \<and>
   loadDataFromFile exampleLib
     (Some (Rec [''a'', ''b'', ''c''] # [] @ Rec [''1'', ''20'', ''30''] # [])) idAgeSchema
     = Inl (FieldCountMismatch 2 2 3) \<and>
   csvRows exampleLib idAgeSchema 2 2 [Rec [''1'', ''20'']] [NewBuilder TInt64, NewBuilder TInt32]
     = Inr [Append (NewBuilder TInt64) (Some (VInt64 1)),
            Append (NewBuilder TInt32) (Some (VInt32 20))] \<and>
   loadDataFromFile exampleLib
     (Some (Rec [''id'', ''age''] # [Rec [''1'', ''20'']] @ Rec [''2''] # [])) idAgeSchema
     = Inl (RowReadError 3)"
proof -
  have b: "mapE newBuilder idAgeSchema = Inr [NewBuilder TInt64, NewBuilder TInt32]"
    by (simp add: idAgeSchema_def newBuilder_def)
  have g0: "csvRows exampleLib idAgeSchema 2 (length [''a'', ''b'', ''c'']) []
             [NewBuilder TInt64, NewBuilder TInt32]
             = Inr [NewBuilder TInt64, NewBuilder TInt32]"
    by simp
  have g1: "csvRows exampleLib idAgeSchema 2 (length [''id'', ''age'']) [Rec [''1'', ''20'']]
             [NewBuilder TInt64, NewBuilder TInt32]
             = Inr [Append (NewBuilder TInt64) (Some (VInt64 1)),
                    Append (NewBuilder TInt32) (Some (VInt32 20))]"
    by (simp add: idAgeSchema_def readRecord_def csvValue_def ParseInt_def isDigit_def
        parseDigits_def digitVal_def)
  have l: "length idAgeSchema = 2" by (simp add: idAgeSchema_def)
  have n0: "length [''1'', ''20'', ''30''] \<noteq> length idAgeSchema"
    and n1: "length [''2''] \<noteq> length idAgeSchema"
    by (simp_all add: l)
  have w0: "loadDataFromFile exampleLib
     (Some (Rec [''a'', ''b'', ''c''] # [] @ Rec [''1'', ''20'', ''30''] # [])) idAgeSchema
     = Inl (FieldCountMismatch 2 2 3)"
    using C6_field_count_mismatch [OF b _ g0 n0, THEN conjunct1, of "[]"] l by simp
  have w1: "loadDataFromFile exampleLib
     (Some (Rec [''id'', ''age''] # [Rec [''1'', ''20'']] @ Rec [''2''] # [])) idAgeSchema
     = Inl (RowReadError 3)"
    using C6_field_count_mismatch [OF b _ g1 n1, THEN conjunct1, of "[]"] l by simp
  have g0': "csvRows exampleLib idAgeSchema 2 3 [] [NewBuilder TInt64, NewBuilder TInt32]
     = Inr [NewBuilder TInt64, NewBuilder TInt32]"
    by simp
  have g1': "csvRows exampleLib idAgeSchema 2 2 [Rec [''1'', ''20'']]
               [NewBuilder TInt64, NewBuilder TInt32]
     = Inr [Append (NewBuilder TInt64) (Some (VInt64 1)),
            Append (NewBuilder TInt32) (Some (VInt32 20))]"
    by (simp add: idAgeSchema_def readRecord_def csvValue_def ParseInt_def isDigit_def
        parseDigits_def digitVal_def)
  show ?thesis
    by (intro conjI b g0' w0 g1' w1)
qed

text \<open>
  C7. In the keyed-object adapter every record contributes one slot to every column.
  For each record and each schema field the field's name is looked up in the record;
  a key that is absent or maps to null goes through the nullable check, and for a
  nullable field the slot is null. So a returned batch has as many rows as there are
  records, column \<open>i\<close> has one slot per record, and slot \<open>k\<close> is what record \<open>k\<close> gives for
  field \<open>i\<close>. The record \<open>{"id": 5}\<close> against \<open>{id: Int64 not-null, age: Int32 nullable}\<close>
  yields one row with \<open>id = 5\<close> and \<open>age\<close> null.
\<close>

theorem C7_absent_key_nullable:
  assumes "loadDataFromJSON L (Some jf) schema = Inr b"
  shows "(\<exists>records. readJSON jf = Inr records \<and> NumRows b = int (length records) \<and>
           length (Columns b) = length schema \<and>
           (\<forall>i<length schema.
              length (vals (Columns b ! i)) = length records \<and>
              (\<forall>k<length records.
                 jsonValue L k (records ! k) (schema ! i) = Inr (vals (Columns b ! i) ! k) \<and>
                 ((records ! k) (Name (schema ! i)) = None \<or>
                  (records ! k) (Name (schema ! i)) = Some JNull
                    \<longrightarrow> Nullable (schema ! i) \<and> vals (Columns b ! i) ! k = None)))) \<and>
         ((rec (Name f) = None \<or> rec (Name f) = Some JNull) \<and> Nullable f
            \<longrightarrow> jsonValue L rowNum rec f = Inr None) \<and>
         loadDataFromJSON L (Some idOnlyFile) idAgeSchema = Inr (idAgeBatch [(5, None)])"
proof -
  obtain records where rd: "readJSON jf = Inr records"
    and nr: "NumRows b = int (length records)" "length (Columns b) = length schema"
    and col: "\<forall>i<length schema.
              length (vals (Columns b ! i)) = length records \<and>
              (\<forall>k<length records.
                 jsonValue L k (records ! k) (schema ! i) = Inr (vals (Columns b ! i) ! k))"
    using loadDataFromJSON_Inr [OF assms] by blast
  have "Nullable (schema ! i) \<and> vals (Columns b ! i) ! k = None"
    if "i < length schema" "k < length records"
       "(records ! k) (Name (schema ! i)) = None \<or>
        (records ! k) (Name (schema ! i)) = Some JNull" for i k
  proof -
    have "jsonValue L k (records ! k) (schema ! i) = Inr (vals (Columns b ! i) ! k)"
      using col that(1,2) by blast
    then show ?thesis
      using jsonValue_missing [of "records ! k" "schema ! i" L k] that(3)
      by (auto split: if_splits)
  qed
  then have "\<forall>i<length schema.
              length (vals (Columns b ! i)) = length records \<and>
              (\<forall>k<length records.
                 jsonValue L k (records ! k) (schema ! i) = Inr (vals (Columns b ! i) ! k) \<and>
                 ((records ! k) (Name (schema ! i)) = None \<or>
                  (records ! k) (Name (schema ! i)) = Some JNull
                    \<longrightarrow> Nullable (schema ! i) \<and> vals (Columns b ! i) ! k = None))"
    using col by blast
  then have first: "\<exists>records. readJSON jf = Inr records \<and> NumRows b = int (length records) \<and>
           length (Columns b) = length schema \<and>
           (\<forall>i<length schema.
              length (vals (Columns b ! i)) = length records \<and>
              (\<forall>k<length records.
                 jsonValue L k (records ! k) (schema ! i) = Inr (vals (Columns b ! i) ! k) \<and>
                 ((records ! k) (Name (schema ! i)) = None \<or>
                  (records ! k) (Name (schema ! i)) = Some JNull
                    \<longrightarrow> Nullable (schema ! i) \<and> vals (Columns b ! i) ! k = None)))"
    using rd nr by blast
  have second: "(rec (Name f) = None \<or> rec (Name f) = Some JNull) \<and> Nullable f
            \<longrightarrow> jsonValue L rowNum rec f = Inr None"
    using jsonValue_missing [of rec f L rowNum] by auto
  show ?thesis using first second loadDataFromJSON_idOnly by blast
qed

theorem C7_witness:
  "loadDataFromJSON exampleLib (Some idOnlyFile) idAgeSchema = Inr (idAgeBatch [(5, None)]) \<and>
   readJSON idOnlyFile = Inr [[''id'' \<mapsto> JNumber (Finite 5)]] \<and>
   NumRows (idAgeBatch [(5, None)]) = 1 \<and>
   vals (Columns (idAgeBatch [(5, None)]) ! 0) = [Some (VInt64 5)] \<and>
   vals (Columns (idAgeBatch [(5, None)]) ! 1) = [None]"
proof -
  have e: "loadDataFromJSON exampleLib (Some idOnlyFile) idAgeSchema
             = Inr (idAgeBatch [(5, None)])"
    by (rule loadDataFromJSON_idOnly)
  have "\<exists>records. readJSON idOnlyFile = Inr records \<and>
          NumRows (idAgeBatch [(5, None)]) = int (length records)"
    using C7_absent_key_nullable [OF e] by blast
  then have "NumRows (idAgeBatch [(5, None)]) = 1"
    by (auto simp: readJSON_def idOnlyFile_def)
  then show ?thesis
    using e by (simp add: readJSON_def idOnlyFile_def idAgeBatch_def)
qed

text \<open>
  C8. The keyed-object adapter reads its input in two stages. When decoding the whole
  document as one array of objects succeeds, those objects are the records, and neither
  the seek nor the object-by-object decoding has any influence on the result. Only when
  that first decoding fails is the file rewound: a failing seek is an error, and
  otherwise the objects decoded one after the other up to the end of input are the
  records, a decoding error among them being an error of the run.
\<close>

theorem C8_two_stage_probe:
  "(asArray f = Some records \<longrightarrow>
      readJSON f = Inr records \<and>
      loadDataFromJSON L (Some f) schema
        = loadDataFromJSON L (Some (f\<lparr>seekFails := sf, asObjects := objs\<rparr>)) schema) \<and>
   (asArray f = None \<and> seekFails f \<longrightarrow>
      readJSON f = Inl SeekFailed) \<and>
   (asArray f = None \<and> \<not> seekFails f \<longrightarrow>
      readJSON f = decodeObjects (asObjects f)) \<and>
   (asArray f = None \<and> \<not> seekFails f \<and> asObjects f = map Decoded rows \<longrightarrow>
      readJSON f = Inr rows \<and>
      loadDataFromJSON L (Some f) schema
        = loadDataFromJSON L (Some \<lparr>asArray = Some rows, seekFails = False, asObjects = []\<rparr>)
            schema) \<and>
   (asArray f = None \<and> \<not> seekFails f \<and> asObjects f = map Decoded rows @ DecodeFails # rest \<longrightarrow>
      readJSON f = Inl JSONDecodeError)"
proof -
  have a: "asArray f = Some records \<longrightarrow>
      readJSON f = Inr records \<and>
      loadDataFromJSON L (Some f) schema
        = loadDataFromJSON L (Some (f\<lparr>seekFails := sf, asObjects := objs\<rparr>)) schema"
    by (auto simp: readJSON_def intro!: loadDataFromJSON_readJSON)
  have b: "asArray f = None \<and> seekFails f \<longrightarrow> readJSON f = Inl SeekFailed"
    by (simp add: readJSON_def)
  have c: "asArray f = None \<and> \<not> seekFails f \<longrightarrow> readJSON f = decodeObjects (asObjects f)"
    by (simp add: readJSON_def)
  have d: "asArray f = None \<and> \<not> seekFails f \<and> asObjects f = map Decoded rows \<longrightarrow>
      readJSON f = Inr rows \<and>
      loadDataFromJSON L (Some f) schema
        = loadDataFromJSON L (Some \<lparr>asArray = Some rows, seekFails = False, asObjects = []\<rparr>)
            schema"
    by (auto simp: readJSON_def decodeObjects_all intro!: loadDataFromJSON_readJSON)
  have e: "asArray f = None \<and> \<not> seekFails f \<and>
           asObjects f = map Decoded rows @ DecodeFails # rest \<longrightarrow>
      readJSON f = Inl JSONDecodeError"
    by (simp add: readJSON_def decodeObjects_fail)
  show ?thesis by (intro conjI a b c d e)
qed

theorem C8_witness:
  "asArray idLinesFile = None \<and> \<not> seekFails idLinesFile \<and>
   asObjects idLinesFile = map Decoded [[''id'' \<mapsto> JNumber (Finite 5)]] \<and>
   readJSON idLinesFile = Inr [[''id'' \<mapsto> JNumber (Finite 5)]] \<and>
   loadDataFromJSON exampleLib (Some idLinesFile) idAgeSchema = Inr (idAgeBatch [(5, None)]) \<and>
   asArray idOnlyFile = Some [[''id'' \<mapsto> JNumber (Finite 5)]] \<and>
   loadDataFromJSON exampleLib
     (Some (idOnlyFile\<lparr>seekFails := True, asObjects := [DecodeFails]\<rparr>)) idAgeSchema
     = Inr (idAgeBatch [(5, None)])"
proof -
  have h: "asArray idLinesFile = None" "\<not> seekFails idLinesFile"
    "asObjects idLinesFile = map Decoded [[''id'' \<mapsto> JNumber (Finite 5)]]"
    by (simp_all add: idLinesFile_def)
  have i: "asArray idOnlyFile = Some [[''id'' \<mapsto> JNumber (Finite 5)]]"
    by (simp add: idOnlyFile_def)
  have o: "\<lparr>asArray = Some [[''id'' \<mapsto> JNumber (Finite 5)]], seekFails = False,
            asObjects = []\<rparr> = idOnlyFile"
    by (simp add: idOnlyFile_def)
  note t = C8_two_stage_probe [where f = idLinesFile and L = exampleLib
      and schema = idAgeSchema and rows = "[[''id'' \<mapsto> JNumber (Finite 5)]]"]
  have r: "readJSON idLinesFile = Inr [[''id'' \<mapsto> JNumber (Finite 5)]]"
    using t h by blast
  have "loadDataFromJSON exampleLib (Some idLinesFile) idAgeSchema
          = loadDataFromJSON exampleLib (Some idOnlyFile) idAgeSchema"
    using t h o by metis
  then have l: "loadDataFromJSON exampleLib (Some idLinesFile) idAgeSchema
                  = Inr (idAgeBatch [(5, None)])"
    by (simp add: loadDataFromJSON_idOnly)
  note t2 = C8_two_stage_probe [where f = idOnlyFile and L = exampleLib
      and schema = idAgeSchema and records = "[[''id'' \<mapsto> JNumber (Finite 5)]]"
      and sf = True and objs = "[DecodeFails]"]
  have "loadDataFromJSON exampleLib (Some idOnlyFile) idAgeSchema
          = loadDataFromJSON exampleLib
              (Some (idOnlyFile\<lparr>seekFails := True, asObjects := [DecodeFails]\<rparr>)) idAgeSchema"
    using t2 i by blast
  then have m: "loadDataFromJSON exampleLib
     (Some (idOnlyFile\<lparr>seekFails := True, asObjects := [DecodeFails]\<rparr>)) idAgeSchema
     = Inr (idAgeBatch [(5, None)])"
    by (simp add: loadDataFromJSON_idOnly)
  show ?thesis by (intro conjI h r l i m)
qed

text \<open>
  C9. The foreign-batch adapter fails when the external source yields zero batches: the
  result is the error "no data found in Parquet file", for every schema and every
  coercion function, and never a batch.
\<close>

theorem C9_zero_batches_fail:
  "loadDataFromORCToParquet CoerceRecord (Batches []) schema = Inl NoDataInParquet"
  by (simp add: loadDataFromORCToParquet_def)



end
